theory Spec2Isabelle
  imports Complex_Main "HOL-Library.Multiset"
begin

section \<open>JavaScript numbers\<close>

text \<open>
  The engine computes with JavaScript numbers. They are modelled as the reals extended by
  the three non-finite values a division can produce: \<open>Fin x\<close> is the finite number
  \<open>x\<close>, \<open>PInf\<close> and \<open>NInf\<close> are \<open>Infinity\<close> and \<open>-Infinity\<close>, \<open>NaN\<close> is
  not-a-number. The operations follow IEEE 754 on the non-finite values. Finite arithmetic is
  exact: the rounding error of binary floating point and the overflow of an operation on
  finite numbers to \<open>Infinity\<close> are not modelled, and neither is the sign of zero, so a
  nonzero finite number divided by zero is taken as divided by \<open>+0\<close>.

  The general statements below are phrased so that they do not lean on this idealisation.
  Where a property needs a computed number to be finite, or finite and not zero, the
  statement assumes it of the computed number itself and not of the inputs; the conclusions
  are comparisons and signs, which each rounded operation preserves, and no statement
  depends on the sign of a quotient by zero. Where a concrete evaluation divides by zero the
  divisor is \<open>+0\<close> in the program as well.
\<close>

datatype jsnum = Fin real | PInf | NInf | NaN

instantiation jsnum :: "{plus, minus, uminus, times, inverse}"
begin

fun plus_jsnum :: "jsnum \<Rightarrow> jsnum \<Rightarrow> jsnum" where
  "plus_jsnum (Fin a) (Fin b) = Fin (a + b)"
| "plus_jsnum NaN y = NaN"
| "plus_jsnum x NaN = NaN"
| "plus_jsnum PInf NInf = NaN"
| "plus_jsnum NInf PInf = NaN"
| "plus_jsnum PInf y = PInf"
| "plus_jsnum NInf y = NInf"
| "plus_jsnum (Fin a) y = y"

fun uminus_jsnum :: "jsnum \<Rightarrow> jsnum" where
  "uminus_jsnum (Fin a) = Fin (- a)"
| "uminus_jsnum PInf = NInf"
| "uminus_jsnum NInf = PInf"
| "uminus_jsnum NaN = NaN"

definition minus_jsnum :: "jsnum \<Rightarrow> jsnum \<Rightarrow> jsnum" where
  "minus_jsnum x y = x + (- y)"

fun times_jsnum :: "jsnum \<Rightarrow> jsnum \<Rightarrow> jsnum" where
  "times_jsnum (Fin a) (Fin b) = Fin (a * b)"
| "times_jsnum NaN y = NaN"
| "times_jsnum x NaN = NaN"
| "times_jsnum PInf (Fin b) = (if b = 0 then NaN else if 0 < b then PInf else NInf)"
| "times_jsnum NInf (Fin b) = (if b = 0 then NaN else if 0 < b then NInf else PInf)"
| "times_jsnum (Fin a) PInf = (if a = 0 then NaN else if 0 < a then PInf else NInf)"
| "times_jsnum (Fin a) NInf = (if a = 0 then NaN else if 0 < a then NInf else PInf)"
| "times_jsnum PInf PInf = PInf"
| "times_jsnum PInf NInf = NInf"
| "times_jsnum NInf PInf = NInf"
| "times_jsnum NInf NInf = PInf"

fun divide_jsnum :: "jsnum \<Rightarrow> jsnum \<Rightarrow> jsnum" where
  "divide_jsnum (Fin a) (Fin b) =
     (if b = 0 then (if a = 0 then NaN else if 0 < a then PInf else NInf) else Fin (a / b))"
| "divide_jsnum NaN y = NaN"
| "divide_jsnum x NaN = NaN"
| "divide_jsnum (Fin a) y = Fin 0"
| "divide_jsnum PInf (Fin b) = (if 0 \<le> b then PInf else NInf)"
| "divide_jsnum NInf (Fin b) = (if 0 \<le> b then NInf else PInf)"
| "divide_jsnum x y = NaN"

definition inverse_jsnum :: "jsnum \<Rightarrow> jsnum" where
  "inverse_jsnum x = divide (Fin 1) x"

instance ..

end

text \<open>\<open>Math.pow\<close> with a non-negative integer exponent (the loop counter).\<close>

fun Math_pow :: "jsnum \<Rightarrow> nat \<Rightarrow> jsnum" where
  "Math_pow (Fin a) m = Fin (a ^ m)"
| "Math_pow NaN m = (if m = 0 then Fin 1 else NaN)"
| "Math_pow PInf m = (if m = 0 then Fin 1 else PInf)"
| "Math_pow NInf m = (if m = 0 then Fin 1 else if odd m then NInf else PInf)"

text \<open>\<open>Math.round\<close> rounds to the nearest integer, a tie towards \<open>+Infinity\<close>:
  \<open>\<lfloor>x + 1/2\<rfloor>\<close>, which is what \<^const>\<open>round\<close> computes.\<close>

fun Math_round :: "jsnum \<Rightarrow> jsnum" where
  "Math_round (Fin a) = Fin (of_int (round a))"
| "Math_round x = x"

fun Math_abs :: "jsnum \<Rightarrow> jsnum" where
  "Math_abs (Fin a) = Fin \<bar>a\<bar>"
| "Math_abs PInf = PInf"
| "Math_abs NInf = PInf"
| "Math_abs NaN = NaN"

fun Math_max :: "jsnum \<Rightarrow> jsnum \<Rightarrow> jsnum" where
  "Math_max (Fin a) (Fin b) = Fin (max a b)"
| "Math_max NaN y = NaN"
| "Math_max x NaN = NaN"
| "Math_max PInf y = PInf"
| "Math_max x PInf = PInf"
| "Math_max NInf y = y"
| "Math_max x NInf = x"

text \<open>The comparison \<open>x > y\<close>: false as soon as one side is \<open>NaN\<close>.\<close>

fun js_gt :: "jsnum \<Rightarrow> jsnum \<Rightarrow> bool" where
  "js_gt (Fin a) (Fin b) = (b < a)"
| "js_gt NaN y = False"
| "js_gt x NaN = False"
| "js_gt PInf PInf = False"
| "js_gt PInf y = True"
| "js_gt NInf y = False"
| "js_gt (Fin a) PInf = False"
| "js_gt (Fin a) NInf = True"

text \<open>The comparison \<open>x >= y\<close>.\<close>

definition js_ge :: "jsnum \<Rightarrow> jsnum \<Rightarrow> bool" where
  "js_ge x y = (js_gt x y \<or> (x = y \<and> x \<noteq> NaN))"

definition is_finite :: "jsnum \<Rightarrow> bool" where
  "is_finite x = (case x of Fin a \<Rightarrow> True | _ \<Rightarrow> False)"

definition is_infinite :: "jsnum \<Rightarrow> bool" where
  "is_infinite x = (x = PInf \<or> x = NInf)"

section \<open>The assumption set and the levers\<close>

record assumptions =
  customers :: jsnum
  arpu :: jsnum
  churnRate :: jsnum
  activationRate :: jsnum
  leadsPerMonth :: jsnum
  demoRate :: jsnum
  trialRate :: jsnum
  paidRate :: jsnum
  leadGrowthRate :: jsnum

definition DEFAULT_ASSUMPTIONS :: assumptions where
  "DEFAULT_ASSUMPTIONS = \<lparr>
     customers = Fin 15,
     arpu = Fin 6,
     churnRate = Fin 5,
     activationRate = Fin 35,
     leadsPerMonth = Fin 50,
     demoRate = Fin 45,
     trialRate = Fin 65,
     paidRate = Fin 55,
     leadGrowthRate = Fin 8 \<rparr>"

definition ACTIVATION_WEIGHT :: jsnum where
  "ACTIVATION_WEIGHT = Fin (4 / 10)"

datatype lever = Churn | Arpu | Activation

text \<open>The \<open>targetValue\<close> and \<open>baseKey\<close> columns of the \<open>LEVERS\<close> table.\<close>

fun targetValue :: "lever \<Rightarrow> jsnum" where
  "targetValue Churn = Fin 2"
| "targetValue Arpu = Fin 9"
| "targetValue Activation = Fin 60"

fun baseKey :: "lever \<Rightarrow> assumptions \<Rightarrow> jsnum" where
  "baseKey Churn = churnRate"
| "baseKey Arpu = arpu"
| "baseKey Activation = activationRate"

section \<open>The simulator\<close>

text \<open>The nullish coalescing \<open>override ?? baseline\<close>: an override that is \<open>null\<close> is
  \<open>None\<close>.\<close>

fun nullish :: "jsnum option \<Rightarrow> jsnum \<Rightarrow> jsnum" where
  "nullish None d = d"
| "nullish (Some v) d = v"

text \<open>One pass through the body of the \<open>for\<close> loop of \<open>calculateMRR\<close>, at loop
  counter \<open>m\<close>.\<close>

definition month_step :: "assumptions \<Rightarrow> jsnum \<Rightarrow> jsnum \<Rightarrow> nat \<Rightarrow> jsnum \<Rightarrow> jsnum" where
  "month_step A churn activationRatio m custs =
     (let w = ACTIVATION_WEIGHT;
          leads = leadsPerMonth A * Math_pow (Fin 1 + leadGrowthRate A / Fin 100) m;
          newCustomers = leads
            * (demoRate A / Fin 100)
            * (trialRate A / Fin 100)
            * (paidRate A / Fin 100)
            * (activationRatio * w + (Fin 1 - w));
          retained = custs * (Fin 1 - churn / Fin 100)
      in retained + newCustomers)"

text \<open>The loop \<open>for (let m = 1; m <= month; m++)\<close>, from counter \<open>m\<close> on. The
  horizon \<open>month\<close> is a non-negative integer: the callers pass 12 and the chart's months
  0, 3, 6, 9, 12, 15 and 18.\<close>

function month_loop :: "assumptions \<Rightarrow> jsnum \<Rightarrow> jsnum \<Rightarrow> nat \<Rightarrow> nat \<Rightarrow> jsnum \<Rightarrow> jsnum" where
  "month_loop A churn activationRatio month m custs =
     (if m \<le> month
      then month_loop A churn activationRatio month (m + 1)
             (month_step A churn activationRatio m custs)
      else custs)"
  by pat_completeness auto
termination
  by (relation "measure (\<lambda>(A, churn, activationRatio, month, m, custs). Suc month - m)") auto

declare month_loop.simps [simp del]

definition calculateMRR ::
  "assumptions \<Rightarrow> jsnum option \<Rightarrow> jsnum option \<Rightarrow> jsnum option \<Rightarrow> nat \<Rightarrow> jsnum" where
  "calculateMRR A churnOverride arpuOverride activationOverride month =
     (let churn = nullish churnOverride (churnRate A);
          arpu' = nullish arpuOverride (arpu A);
          activation = nullish activationOverride (activationRate A);
          activationRatio = activation / activationRate A;
          custs = month_loop A churn activationRatio month 1 (customers A)
      in Math_round (custs * arpu' * Fin 1000))"

section \<open>The impact analyzer\<close>

text \<open>The object \<open>o\<close> of \<open>calcIndependentImpact\<close>, keyed by lever id, is a function on
  \<^typ>\<open>lever\<close>; \<open>o[leverId] = value\<close> is a function update. The callers pass one of the
  three lever ids and a number.\<close>

definition calcIndependentImpact :: "assumptions \<Rightarrow> lever \<Rightarrow> jsnum \<Rightarrow> jsnum" where
  "calcIndependentImpact A leverId v =
     (let baseMRR = calculateMRR A (Some (churnRate A)) (Some (arpu A))
                      (Some (activationRate A)) 12;
          o0 = (\<lambda>l. case l of Churn \<Rightarrow> churnRate A | Arpu \<Rightarrow> arpu A
                              | Activation \<Rightarrow> activationRate A);
          o1 = o0 (leverId := v);
          newMRR = calculateMRR A (Some (o1 Churn)) (Some (o1 Arpu)) (Some (o1 Activation)) 12
      in Math_round (((newMRR - baseMRR) / baseMRR) * Fin 100))"

text \<open>The absolute impact \<open>Math.abs(calcIndependentImpact(...))\<close>, as the insight
  ranker and the prioritizer use it.\<close>

abbreviation absImpact :: "assumptions \<Rightarrow> lever \<Rightarrow> jsnum \<Rightarrow> jsnum" where
  "absImpact A l v \<equiv> Math_abs (calcIndependentImpact A l v)"

text \<open>The two MRR values that \<open>calcIndependentImpact\<close> compares: \<open>baseMRR\<close>, and
  \<open>newMRR\<close> for a lever and a candidate value.\<close>

definition baselineMRR :: "assumptions \<Rightarrow> jsnum" where
  "baselineMRR A =
     calculateMRR A (Some (churnRate A)) (Some (arpu A)) (Some (activationRate A)) 12"

definition scenarioMRR :: "assumptions \<Rightarrow> lever \<Rightarrow> jsnum \<Rightarrow> jsnum" where
  "scenarioMRR A leverId v =
     calculateMRR A (Some (if leverId = Churn then v else churnRate A))
       (Some (if leverId = Arpu then v else arpu A))
       (Some (if leverId = Activation then v else activationRate A)) 12"

section \<open>Sorting with a comparator\<close>

text \<open>
  \<open>Array.prototype.sort(cmp)\<close> is stable, and a comparator result that is \<open>NaN\<close> counts
  as \<open>0\<close>. It is modelled as the stable insertion sort that takes the elements from left
  to right and puts each one in front of the first element it has to precede
  (\<open>cmp x y < 0\<close>). For a comparator that orders its arguments consistently every stable
  sort returns this list.
\<close>

fun js_insert :: "('a \<Rightarrow> 'a \<Rightarrow> jsnum) \<Rightarrow> 'a \<Rightarrow> 'a list \<Rightarrow> 'a list" where
  "js_insert cmp x [] = [x]"
| "js_insert cmp x (y # ys) =
     (if js_gt (Fin 0) (cmp x y) then x # y # ys else y # js_insert cmp x ys)"

definition js_sort :: "('a \<Rightarrow> 'a \<Rightarrow> jsnum) \<Rightarrow> 'a list \<Rightarrow> 'a list" where
  "js_sort cmp xs = foldl (\<lambda>acc x. js_insert cmp x acc) [] xs"

section \<open>The insight ranker\<close>

text \<open>The objects of \<open>targetImpacts\<close> carry a label and a percentage; those of
  \<open>impacts\<close> carry the lever id as well.\<close>

record target_impact =
  label :: string
  pct :: jsnum

record impact = target_impact +
  leverId :: lever

text \<open>The text templates of \<open>generateCoreInsight\<close>, each with the numbers and labels
  it is filled with.\<close>

datatype insight =
    UpsideAtTargets string jsnum string jsnum
  | SingleLever string jsnum
  | RetentionMonetization jsnum jsnum
  | LargestLever string jsnum "(string \<times> jsnum) option"

definition generateCoreInsight :: "assumptions \<Rightarrow> jsnum \<Rightarrow> jsnum \<Rightarrow> jsnum \<Rightarrow> insight" where
  "generateCoreInsight A churn arpu' activation =
     (let impacts = js_sort (\<lambda>a b. pct b - pct a)
            [ \<lparr>label = ''retention'',
                pct = Math_abs (calcIndependentImpact A Churn churn), leverId = Churn\<rparr>,
              \<lparr>label = ''monetization'',
                pct = Math_abs (calcIndependentImpact A Arpu arpu'), leverId = Arpu\<rparr>,
              \<lparr>label = ''activation'',
                pct = Math_abs (calcIndependentImpact A Activation activation),
                leverId = Activation\<rparr> ];
          modified = filter (\<lambda>i. js_gt (pct i) (Fin 0)) impacts
      in if length modified = 0 then
           (let targetImpacts = js_sort (\<lambda>a b. pct b - pct a)
                  [ \<lparr>label = ''retention'',
                      pct = Math_abs (calcIndependentImpact A Churn (Fin 2))\<rparr>,
                    \<lparr>label = ''monetization'',
                      pct = Math_abs (calcIndependentImpact A Arpu (Fin 9))\<rparr>,
                    \<lparr>label = ''activation'',
                      pct = Math_abs (calcIndependentImpact A Activation (Fin 60))\<rparr> ];
                top = targetImpacts ! 0;
                second = targetImpacts ! 1
            in UpsideAtTargets (label top) (pct top) (label second) (pct second))
         else
           (let top = modified ! 0
            in if length modified = 1 then SingleLever (label top) (pct top)
               else
                 (let acqImpact = find (\<lambda>i. leverId i = Activation) modified;
                      retMonImpact = filter (\<lambda>i. leverId i \<noteq> Activation) modified
                  in case acqImpact of
                       Some acq \<Rightarrow>
                         if 2 \<le> length retMonImpact
                            \<and> js_gt (foldl (\<lambda>s i. s + pct i) (Fin 0) retMonImpact)
                                 (pct acq * Fin (3 / 2))
                         then RetentionMonetization
                                (foldl (\<lambda>s i. s + pct i) (Fin 0) retMonImpact) (pct acq)
                         else LargestLever (label top) (pct top)
                                (if 1 < length modified
                                 then Some (label (modified ! 1), pct (modified ! 1))
                                 else None)
                     | None \<Rightarrow>
                         LargestLever (label top) (pct top)
                           (if 1 < length modified
                            then Some (label (modified ! 1), pct (modified ! 1))
                            else None))))"

section \<open>The upside prioritizer\<close>

text \<open>
  The plan is computed in the body of the component. \<open>planItems\<close> is the fixed list of
  the three initiatives, of which the model keeps the lever id (the other fields are
  text); \<open>planLeverId\<close> is the field \<open>leverId\<close> of a plan item. The three effective lever
  values are the component's \<open>effectiveChurn\<close>, \<open>effectiveArpu\<close> and
  \<open>effectiveActivation\<close>.
\<close>

record upside_item =
  planLeverId :: lever
  upside :: jsnum
  currentImpact :: jsnum

record remaining_item = upside_item +
  remaining :: jsnum

definition planItems :: "lever list" where
  "planItems = [Churn, Activation, Arpu]"

definition upsides :: "assumptions \<Rightarrow> jsnum \<Rightarrow> jsnum \<Rightarrow> jsnum \<Rightarrow> upside_item list" where
  "upsides A effectiveChurn effectiveArpu effectiveActivation =
     map (\<lambda>item.
            let target = targetValue item
            in \<lparr>planLeverId = item,
                upside = Math_abs (calcIndependentImpact A item target),
                currentImpact = Math_abs (calcIndependentImpact A item
                  (if item = Churn then effectiveChurn
                   else if item = Arpu then effectiveArpu else effectiveActivation))\<rparr>)
         planItems"

definition withRemaining :: "upside_item \<Rightarrow> remaining_item" where
  "withRemaining item =
     \<lparr>planLeverId = planLeverId item, upside = upside item,
      currentImpact = currentImpact item,
      remaining = Math_max (Fin 0) (upside item - currentImpact item)\<rparr>"

definition remainingUpside ::
  "assumptions \<Rightarrow> jsnum \<Rightarrow> jsnum \<Rightarrow> jsnum \<Rightarrow> remaining_item list" where
  "remainingUpside A effectiveChurn effectiveArpu effectiveActivation =
     js_sort (\<lambda>a b. remaining b - remaining a)
       (map withRemaining (upsides A effectiveChurn effectiveArpu effectiveActivation))"

section \<open>The recurrence as the specification words it\<close>

text \<open>The customer count after \<open>h\<close> months, by recursion on the horizon: month \<open>h + 1\<close>
  is computed from the count after \<open>h\<close> months.\<close>

fun spec_customers :: "assumptions \<Rightarrow> jsnum \<Rightarrow> jsnum \<Rightarrow> nat \<Rightarrow> jsnum" where
  "spec_customers A churn activation 0 = customers A"
| "spec_customers A churn activation (Suc h) =
     (let leads = leadsPerMonth A * Math_pow (Fin 1 + leadGrowthRate A / Fin 100) (Suc h);
          activationRatio = activation / activationRate A;
          newCustomers = leads * (demoRate A / Fin 100) * (trialRate A / Fin 100)
            * (paidRate A / Fin 100) * (activationRatio * Fin (4 / 10) + Fin (6 / 10));
          retained = spec_customers A churn activation h * (Fin 1 - churn / Fin 100)
      in retained + newCustomers)"

section \<open>Finite inputs\<close>

text \<open>
  On an assumption set whose nine fields are finite numbers, with a nonzero activation rate,
  the model of the simulator computes with finite numbers only. \<open>num\<close> reads the value of
  a finite number; \<open>real_customers\<close> is the customer count after \<open>h\<close> months as a real
  number, and \<open>real_new\<close> the new customers of month \<open>m\<close>. They serve to evaluate the
  simulator on concrete assumption sets.
\<close>

definition num :: "jsnum \<Rightarrow> real" where
  "num x = (case x of Fin a \<Rightarrow> a | _ \<Rightarrow> 0)"

definition finite_assumptions :: "assumptions \<Rightarrow> bool" where
  "finite_assumptions A =
     (is_finite (customers A) \<and> is_finite (arpu A) \<and> is_finite (churnRate A)
      \<and> is_finite (activationRate A) \<and> is_finite (leadsPerMonth A)
      \<and> is_finite (demoRate A) \<and> is_finite (trialRate A) \<and> is_finite (paidRate A)
      \<and> is_finite (leadGrowthRate A))"

definition real_new :: "assumptions \<Rightarrow> real \<Rightarrow> nat \<Rightarrow> real" where
  "real_new A act m =
     num (leadsPerMonth A) * (1 + num (leadGrowthRate A) / 100) ^ m
       * (num (demoRate A) / 100) * (num (trialRate A) / 100) * (num (paidRate A) / 100)
       * (act / num (activationRate A) * (4 / 10) + (1 - 4 / 10))"

fun real_customers :: "assumptions \<Rightarrow> real \<Rightarrow> real \<Rightarrow> nat \<Rightarrow> real" where
  "real_customers A c act 0 = num (customers A)"
| "real_customers A c act (Suc h) =
     real_customers A c act h * (1 - c / 100) + real_new A act (Suc h)"

section \<open>Runs that stay finite\<close>

text \<open>
  \<open>funnel_of\<close> and \<open>new_customers_of\<close> name the two factors of \<open>newCustomers\<close> in the
  loop body: the leads of the month through the funnel, and that product times the
  activation blend. \<open>nonneg_or_nan\<close> holds of the numbers that a product or sum of
  non-negative numbers can be: a non-negative finite number, \<open>Infinity\<close>, or \<open>NaN\<close>
  (from \<open>Infinity * 0\<close>).
\<close>

definition funnel_of :: "assumptions \<Rightarrow> nat \<Rightarrow> jsnum" where
  "funnel_of A m =
     leadsPerMonth A * Math_pow (Fin 1 + leadGrowthRate A / Fin 100) m
       * (demoRate A / Fin 100) * (trialRate A / Fin 100) * (paidRate A / Fin 100)"

definition new_customers_of :: "assumptions \<Rightarrow> jsnum \<Rightarrow> nat \<Rightarrow> jsnum" where
  "new_customers_of A activationRatio m =
     funnel_of A m * (activationRatio * ACTIVATION_WEIGHT + (Fin 1 - ACTIVATION_WEIGHT))"

definition nonneg_or_nan :: "jsnum \<Rightarrow> bool" where
  "nonneg_or_nan x = (case x of Fin a \<Rightarrow> 0 \<le> a | PInf \<Rightarrow> True | NInf \<Rightarrow> False | NaN \<Rightarrow> True)"

section \<open>Properties of the simulator\<close>

lemma month_loop_done: "month < m \<Longrightarrow> month_loop A c r month m x = x"
  by (subst month_loop.simps) simp

lemma month_loop_unfold:
  "m \<le> month \<Longrightarrow>
   month_loop A c r month m x = month_loop A c r month (Suc m) (month_step A c r m x)"
  by (subst month_loop.simps) simp

text \<open>Running the loop one month further is one more step at the end.\<close>

lemma month_loop_Suc:
  "m \<le> Suc month \<Longrightarrow>
   month_loop A c r (Suc month) m x = month_step A c r (Suc month) (month_loop A c r month m x)"
proof (induction "Suc month - m" arbitrary: m x)
  case 0
  then have eq: "m = Suc month" by simp
  show ?case
    by (simp add: eq month_loop_unfold month_loop_done)
next
  case (Suc k)
  then have le: "m \<le> month" and k: "k = Suc month - Suc m" by simp_all
  have "month_loop A c r (Suc month) m x
        = month_loop A c r (Suc month) (Suc m) (month_step A c r m x)"
    using le by (simp add: month_loop_unfold)
  also have "\<dots> = month_step A c r (Suc month)
                    (month_loop A c r month (Suc m) (month_step A c r m x))"
    using Suc.hyps(1) [OF k] le by simp
  also have "\<dots> = month_step A c r (Suc month) (month_loop A c r month m x)"
    using le by (simp add: month_loop_unfold)
  finally show ?case .
qed

lemma month_step_spec:
  "month_step A churn (activation / activationRate A) (Suc h) (spec_customers A churn activation h)
   = spec_customers A churn activation (Suc h)"
  by (simp add: month_step_def ACTIVATION_WEIGHT_def Let_def minus_jsnum_def)

lemma month_loop_spec:
  "month_loop A churn (activation / activationRate A) h 1 (customers A)
   = spec_customers A churn activation h"
proof (induction h)
  case 0
  show ?case by (simp add: month_loop_done)
next
  case (Suc h)
  have "month_loop A churn (activation / activationRate A) (Suc h) 1 (customers A)
        = month_step A churn (activation / activationRate A) (Suc h)
            (month_loop A churn (activation / activationRate A) h 1 (customers A))"
    by (rule month_loop_Suc) simp
  then show ?case
    by (simp only: Suc.IH month_step_spec)
qed

lemma calculateMRR_unfold:
  "calculateMRR A churnOverride arpuOverride activationOverride h
   = Math_round (month_loop A (nullish churnOverride (churnRate A))
                   (nullish activationOverride (activationRate A) / activationRate A) h 1
                   (customers A)
                 * nullish arpuOverride (arpu A) * Fin 1000)"
  by (simp only: calculateMRR_def Let_def)

text \<open>
  C1. For every assumption set, every triple of overrides and every horizon,
  \<open>calculateMRR\<close> returns \<open>round(customers_h * arpu * 1000)\<close>, where \<open>arpu\<close>, the churn
  and the activation are the effective overrides (the override, or the baseline field when
  there is none) and \<open>customers_h\<close> is the customer count of the specification's recurrence
  after \<open>h\<close> months. The statement holds for every activation rate, a zero one included:
  both sides then carry the same non-finite activation ratio.
\<close>

theorem calculateMRR_recurrence:
  "calculateMRR A churnOverride arpuOverride activationOverride h
   = Math_round (spec_customers A (nullish churnOverride (churnRate A))
                   (nullish activationOverride (activationRate A)) h
                 * nullish arpuOverride (arpu A) * Fin 1000)"
  by (simp only: calculateMRR_unfold month_loop_spec)

text \<open>
  C6. At horizon 0 \<open>calculateMRR\<close> returns \<open>round(customers * arpu * 1000)\<close> with
  the effective ARPU, which is the ARPU override when there is one: the initial customer
  count, priced at the overridden ARPU, whatever the churn and activation overrides are.
\<close>

theorem calculateMRR_horizon_zero:
  "calculateMRR A churnOverride arpuOverride activationOverride 0
     = Math_round (customers A * nullish arpuOverride (arpu A) * Fin 1000)
   \<and> calculateMRR A churnOverride (Some arpuValue) activationOverride 0
     = Math_round (customers A * arpuValue * Fin 1000)"
  by (simp add: calculateMRR_def Let_def month_loop_done)

section \<open>The simulator on finite inputs\<close>

lemma num_Fin [simp]: "num (Fin a) = a"
  by (simp add: num_def)

lemma is_finite_Fin: "is_finite x \<Longrightarrow> \<exists>a. x = Fin a"
  by (cases x) (simp_all add: is_finite_def)

lemma month_step_fin:
  assumes "finite_assumptions A" "num (activationRate A) \<noteq> 0"
  shows "month_step A (Fin c) (Fin act / activationRate A) m (Fin x)
         = Fin (x * (1 - c / 100) + real_new A act m)"
proof -
  from assms(1) obtain L g d t p r where
    "leadsPerMonth A = Fin L" "leadGrowthRate A = Fin g" "demoRate A = Fin d"
    "trialRate A = Fin t" "paidRate A = Fin p" "activationRate A = Fin r"
    unfolding finite_assumptions_def by (metis is_finite_Fin)
  with assms(2) show ?thesis
    by (simp add: month_step_def real_new_def ACTIVATION_WEIGHT_def Let_def minus_jsnum_def)
qed

lemma spec_customers_fin:
  assumes "finite_assumptions A" "num (activationRate A) \<noteq> 0"
  shows "spec_customers A (Fin c) (Fin act) h = Fin (real_customers A c act h)"
proof (induction h)
  case 0
  from assms(1) obtain c0 where "customers A = Fin c0"
    unfolding finite_assumptions_def by (metis is_finite_Fin)
  then show ?case by simp
next
  case (Suc h)
  have "spec_customers A (Fin c) (Fin act) (Suc h)
        = month_step A (Fin c) (Fin act / activationRate A) (Suc h)
            (spec_customers A (Fin c) (Fin act) h)"
    by (simp only: month_step_spec)
  also have "\<dots> = Fin (real_customers A c act h * (1 - c / 100) + real_new A act (Suc h))"
    by (simp only: Suc.IH month_step_fin [OF assms])
  finally show ?case by simp
qed

lemma month_loop_fin:
  assumes "finite_assumptions A" "num (activationRate A) \<noteq> 0"
  shows "month_loop A (Fin c) (Fin act / activationRate A) h 1 (customers A)
         = Fin (real_customers A c act h)"
  by (simp only: month_loop_spec spec_customers_fin [OF assms])

lemma calculateMRR_fin:
  assumes "finite_assumptions A" "num (activationRate A) \<noteq> 0"
    and "nullish churnOverride (churnRate A) = Fin c"
    and "nullish arpuOverride (arpu A) = Fin a"
    and "nullish activationOverride (activationRate A) = Fin act"
  shows "calculateMRR A churnOverride arpuOverride activationOverride h
         = Fin (of_int (round (real_customers A c act h * a * 1000)))"
  by (simp only: calculateMRR_unfold assms(3-5) month_loop_fin [OF assms(1,2)]) simp

text \<open>The run to horizon \<open>month\<close> passes through the result of the run to every
  earlier horizon \<open>k\<close>: the running customer count after \<open>k\<close> iterations is the
  result of the loop with bound \<open>k\<close>.\<close>

lemma month_loop_split:
  "k \<le> month \<Longrightarrow>
   month_loop A c r month 1 x = month_loop A c r month (Suc k) (month_loop A c r k 1 x)"
proof (induction k)
  case 0
  show ?case by (simp add: month_loop_done)
next
  case (Suc k)
  then have "month_loop A c r month 1 x = month_loop A c r month (Suc k) (month_loop A c r k 1 x)"
    by simp
  also have "\<dots> = month_loop A c r month (Suc (Suc k))
                     (month_step A c r (Suc k) (month_loop A c r k 1 x))"
    using Suc.prems by (simp add: month_loop_unfold)
  also have "month_step A c r (Suc k) (month_loop A c r k 1 x) = month_loop A c r (Suc k) 1 x"
    by (simp add: month_loop_Suc)
  finally show ?case .
qed

section \<open>Runs of the simulator that stay finite\<close>

lemma js_ge_Fin [simp]: "js_ge (Fin a) (Fin b) = (b \<le> a)"
  by (auto simp: js_ge_def)

lemma is_finite_iff: "is_finite x = (\<exists>a. x = Fin a)"
  by (cases x) (simp_all add: is_finite_def)

lemma mrr_of_count:
  assumes "nullish churnOverride (churnRate A) = Fin c"
    and "nullish arpuOverride (arpu A) = Fin a"
    and "nullish activationOverride (activationRate A) = Fin act"
    and "month_loop A (Fin c) (Fin act / activationRate A) h 1 (customers A) = Fin x"
  shows "calculateMRR A churnOverride arpuOverride activationOverride h
         = Fin (of_int (round (x * a * 1000)))"
  by (simp only: calculateMRR_unfold assms) simp

lemma month_step_eq:
  "month_step A churn r m custs
   = custs * (Fin 1 - churn / Fin 100) + new_customers_of A r m"
  by (simp add: month_step_def new_customers_of_def funnel_of_def Let_def)

lemma plus_Fin_D: "(a::jsnum) + b = Fin y \<Longrightarrow> \<exists>u v. a = Fin u \<and> b = Fin v \<and> y = u + v"
  by (cases a; cases b) simp_all

lemma times_Fin_D: "(a::jsnum) * b = Fin y \<Longrightarrow> \<exists>u v. a = Fin u \<and> b = Fin v \<and> y = u * v"
  by (cases a; cases b) (simp_all split: if_splits)

lemma nn_Fin [simp]: "nonneg_or_nan (Fin a) = (0 \<le> a)"
  by (simp add: nonneg_or_nan_def)

lemma nn_js_ge: "js_ge x (Fin 0) \<Longrightarrow> nonneg_or_nan x"
  by (cases x) (auto simp: js_ge_def nonneg_or_nan_def)

lemma nn_times: "nonneg_or_nan a \<Longrightarrow> nonneg_or_nan b \<Longrightarrow> nonneg_or_nan (a * b)"
  by (cases a; cases b) (auto simp: nonneg_or_nan_def)

lemma nn_plus: "nonneg_or_nan a \<Longrightarrow> nonneg_or_nan b \<Longrightarrow> nonneg_or_nan (a + b)"
  by (cases a; cases b) (auto simp: nonneg_or_nan_def)

lemma nn_percent: "nonneg_or_nan a \<Longrightarrow> nonneg_or_nan (a / Fin 100)"
  by (cases a) (auto simp: nonneg_or_nan_def)

lemma nn_pow: "nonneg_or_nan a \<Longrightarrow> nonneg_or_nan (Math_pow a m)"
  by (cases a) (auto simp: nonneg_or_nan_def)

lemma nn_growth: "js_ge g (Fin (- 100)) \<Longrightarrow> nonneg_or_nan (Fin 1 + g / Fin 100)"
  by (cases g) (auto simp: nonneg_or_nan_def js_ge_def)

lemma nn_funnel:
  assumes "js_ge (leadsPerMonth A) (Fin 0)" "js_ge (demoRate A) (Fin 0)"
    "js_ge (trialRate A) (Fin 0)" "js_ge (paidRate A) (Fin 0)"
    "js_ge (leadGrowthRate A) (Fin (- 100))"
  shows "nonneg_or_nan (funnel_of A m)"
proof -
  have "nonneg_or_nan (leadsPerMonth A)" "nonneg_or_nan (demoRate A / Fin 100)"
    "nonneg_or_nan (trialRate A / Fin 100)" "nonneg_or_nan (paidRate A / Fin 100)"
    using assms(1-4) by (simp_all add: nn_js_ge nn_percent)
  moreover have "nonneg_or_nan (Math_pow (Fin 1 + leadGrowthRate A / Fin 100) m)"
    using assms(5) by (simp add: nn_growth nn_pow)
  ultimately show ?thesis
    unfolding funnel_of_def by (simp add: nn_times)
qed

lemma new_customers_Fin:
  "new_customers_of A (Fin q) m = Fin n \<longleftrightarrow>
     (\<exists>k. funnel_of A m = Fin k \<and> n = k * (q * (4 / 10) + (1 - 4 / 10)))"
  unfolding new_customers_of_def
  by (cases "funnel_of A m") (auto simp: ACTIVATION_WEIGHT_def minus_jsnum_def)

lemma nn_new_customers:
  assumes "nonneg_or_nan (funnel_of A m)" "0 \<le> q"
  shows "nonneg_or_nan (new_customers_of A (Fin q) m)"
  using assms unfolding new_customers_of_def
  by (cases "funnel_of A m") (auto simp: ACTIVATION_WEIGHT_def minus_jsnum_def nonneg_or_nan_def)

lemma new_customers_mono:
  assumes "nonneg_or_nan (funnel_of A m)" "q1 \<le> q2"
    and "new_customers_of A (Fin q1) m = Fin n1" "new_customers_of A (Fin q2) m = Fin n2"
  shows "n1 \<le> n2"
proof -
  from assms(3,4) obtain k where k: "funnel_of A m = Fin k"
    and n: "n1 = k * (q1 * (4 / 10) + (1 - 4 / 10))" "n2 = k * (q2 * (4 / 10) + (1 - 4 / 10))"
    by (auto simp: new_customers_Fin)
  have "0 \<le> k" using assms(1) k by simp
  then show ?thesis
    unfolding n using assms(2) by (intro mult_left_mono) simp_all
qed

text \<open>The activation ratio of a finite activation value over a positive activation rate.\<close>

lemma activation_ratio:
  assumes "js_gt ar (Fin 0)"
  shows "\<exists>q. (\<forall>act. Fin act / ar = Fin (q * act)) \<and> 0 \<le> q"
proof (cases ar)
  case (Fin \<rho>)
  with assms have "0 < \<rho>" by simp
  then have "\<forall>act. Fin act / ar = Fin (1 / \<rho> * act)" "0 \<le> 1 / \<rho>"
    using Fin by simp_all
  then show ?thesis by blast
next
  case PInf
  then have "\<forall>act. Fin act / ar = Fin (0 * act)" by simp
  then show ?thesis by blast
next
  case NInf
  with assms show ?thesis by simp
next
  case NaN
  with assms show ?thesis by simp
qed

text \<open>A finite count after an iteration comes from a finite count before it.\<close>

lemma month_step_Fin_D:
  assumes "month_step A (Fin c) r m custs = Fin y"
  shows "\<exists>x n. custs = Fin x \<and> new_customers_of A r m = Fin n \<and> y = x * (1 - c / 100) + n"
proof -
  from assms obtain u n where u: "custs * (Fin 1 - Fin c / Fin 100) = Fin u"
    and n: "new_customers_of A r m = Fin n" and y: "y = u + n"
    unfolding month_step_eq by (blast dest: plus_Fin_D)
  from u obtain x where "custs = Fin x" "u = x * (1 - c / 100)"
    by (auto dest!: times_Fin_D simp: minus_jsnum_def)
  with n y show ?thesis by blast
qed

lemma month_loop_Suc1:
  "month_loop A c r (Suc k) 1 x0 = month_step A c r (Suc k) (month_loop A c r k 1 x0)"
  by (rule month_loop_Suc) simp

lemma month_loop_zero [simp]: "month_loop A c r 0 (Suc 0) x0 = x0"
  by (rule month_loop_done) simp

lemma count_finite_back:
  assumes "month_loop A (Fin c) r h 1 x0 = Fin y" "k \<le> h"
  shows "\<exists>x. month_loop A (Fin c) r k 1 x0 = Fin x"
  using assms
proof (induction h arbitrary: y)
  case 0
  then show ?case by simp
next
  case (Suc h)
  show ?case
  proof (cases "k = Suc h")
    case True
    with Suc.prems(1) show ?thesis by blast
  next
    case False
    with Suc.prems(2) have "k \<le> h" by simp
    moreover from Suc.prems(1) obtain x where "month_loop A (Fin c) r h 1 x0 = Fin x"
      unfolding month_loop_Suc1 by (blast dest: month_step_Fin_D)
    ultimately show ?thesis by (rule Suc.IH [rotated])
  qed
qed

lemma count_nonneg:
  assumes new: "\<And>m. nonneg_or_nan (new_customers_of A r m)"
    and "c \<le> 100" "js_ge x0 (Fin 0)"
    and "month_loop A (Fin c) r k 1 x0 = Fin x"
  shows "0 \<le> x"
  using assms(4)
proof (induction k arbitrary: x)
  case 0
  with assms(3) show ?case by simp
next
  case (Suc k)
  from Suc.prems obtain u n where
    u: "month_loop A (Fin c) r k 1 x0 = Fin u" and n: "new_customers_of A r (Suc k) = Fin n"
    and x: "x = u * (1 - c / 100) + n"
    unfolding month_loop_Suc1 by (blast dest: month_step_Fin_D)
  have "0 \<le> u" using u by (rule Suc.IH)
  moreover have "0 \<le> n" using new [of "Suc k"] n by simp
  moreover have "0 \<le> 1 - c / 100" using assms(2) by simp
  ultimately show ?case unfolding x by simp
qed

text \<open>
  C10, as amended. On an assumption set with non-negative customers, leads per month, demo,
  trial and paid rates, a lead growth rate of at least \<open>-100\<close> and a strictly positive
  activation rate, with a finite non-negative effective activation override and a finite
  effective churn override between 0 and 100: whenever the customer count that
  \<open>calculateMRR\<close> reaches at the horizon is a finite number (no \<open>Infinity\<close> or \<open>NaN\<close>
  has come up on the way), the running customer count is a non-negative finite number
  after every monthly iteration, and the returned MRR is \<open>>= 0\<close> whenever the effective
  ARPU override is a finite non-negative number.
\<close>

theorem simulator_nonneg:
  assumes "js_ge (customers A) (Fin 0)" "js_ge (leadsPerMonth A) (Fin 0)"
    and "js_ge (demoRate A) (Fin 0)" "js_ge (trialRate A) (Fin 0)"
    and "js_ge (paidRate A) (Fin 0)" "js_ge (leadGrowthRate A) (Fin (- 100))"
    and "js_gt (activationRate A) (Fin 0)"
    and "nullish churnOverride (churnRate A) = Fin c" "0 \<le> c" "c \<le> 100"
    and "nullish activationOverride (activationRate A) = Fin act" "0 \<le> act"
    and "is_finite (month_loop A (Fin c) (Fin act / activationRate A) month 1 (customers A))"
  shows "(\<forall>k\<le>month. \<exists>x\<ge>0.
            month_loop A (Fin c) (Fin act / activationRate A) k 1 (customers A) = Fin x)
         \<and> (\<forall>a\<ge>0. nullish arpuOverride (arpu A) = Fin a \<longrightarrow>
              js_ge (calculateMRR A churnOverride arpuOverride activationOverride month)
                (Fin 0))"
proof -
  obtain q where q: "\<And>v. Fin v / activationRate A = Fin (q * v)" "0 \<le> q"
    using activation_ratio [OF assms(7)] by blast
  have new: "\<And>m. nonneg_or_nan (new_customers_of A (Fin act / activationRate A) m)"
    unfolding q(1) using assms(2-6,12) q(2) by (intro nn_new_customers nn_funnel) simp_all
  from assms(13) obtain y where
    y: "month_loop A (Fin c) (Fin act / activationRate A) month 1 (customers A) = Fin y"
    by (auto simp: is_finite_iff)
  have count: "\<exists>x\<ge>0. month_loop A (Fin c) (Fin act / activationRate A) k 1 (customers A) = Fin x"
    if kle: "k \<le> month" for k
  proof -
    obtain x where x: "month_loop A (Fin c) (Fin act / activationRate A) k 1 (customers A) = Fin x"
      using count_finite_back [OF y kle] by blast
    have "0 \<le> x" using new assms(10,1) x by (rule count_nonneg)
    with x show ?thesis by blast
  qed
  have "js_ge (calculateMRR A churnOverride arpuOverride activationOverride month) (Fin 0)"
    if "0 \<le> a" "nullish arpuOverride (arpu A) = Fin a" for a
  proof -
    have "0 \<le> y" using new assms(10,1) y by (rule count_nonneg)
    then have "0 \<le> y * a * 1000" using that(1) by simp
    then have "0 \<le> round (y * a * 1000)" by (simp add: round_def)
    then show ?thesis
      by (simp add: mrr_of_count [OF assms(8) that(2) assms(11) y])
  qed
  with count show ?thesis by blast
qed

section \<open>The default assumption set\<close>

lemma default_finite: "finite_assumptions DEFAULT_ASSUMPTIONS"
  by (simp add: finite_assumptions_def DEFAULT_ASSUMPTIONS_def is_finite_def)

lemma default_fields:
  "customers DEFAULT_ASSUMPTIONS = Fin 15" "arpu DEFAULT_ASSUMPTIONS = Fin 6"
  "churnRate DEFAULT_ASSUMPTIONS = Fin 5" "activationRate DEFAULT_ASSUMPTIONS = Fin 35"
  "leadsPerMonth DEFAULT_ASSUMPTIONS = Fin 50" "demoRate DEFAULT_ASSUMPTIONS = Fin 45"
  "trialRate DEFAULT_ASSUMPTIONS = Fin 65" "paidRate DEFAULT_ASSUMPTIONS = Fin 55"
  "leadGrowthRate DEFAULT_ASSUMPTIONS = Fin 8"
  by (simp_all add: DEFAULT_ASSUMPTIONS_def)

lemma default_nz: "num (activationRate DEFAULT_ASSUMPTIONS) \<noteq> 0"
  by (simp add: default_fields)

lemma default_customers_12:
  "real_customers DEFAULT_ASSUMPTIONS 5 35 12
     = 5610902260532482852030668903 / 40000000000000000000000000"
  "real_customers DEFAULT_ASSUMPTIONS 2 60 12
     = 28080080566572296360593263 / 136718750000000000000000"
  "real_customers DEFAULT_ASSUMPTIONS 2 35 12
     = 3171097280209517306128407 / 19531250000000000000000"
  "real_customers DEFAULT_ASSUMPTIONS 5 60 12
     = 7121384034228168758972467161 / 40000000000000000000000000"
  by (simp_all add: real_new_def default_fields eval_nat_numeral)

lemma default_MRR_12:
  "calculateMRR DEFAULT_ASSUMPTIONS None None None 12 = Fin 841635"
  "calculateMRR DEFAULT_ASSUMPTIONS (Some (Fin 2)) (Some (Fin 9)) (Some (Fin 60)) 12 = Fin 1848472"
  "calculateMRR DEFAULT_ASSUMPTIONS (Some (Fin 2)) None None 12 = Fin 974161"
  "calculateMRR DEFAULT_ASSUMPTIONS None (Some (Fin 9)) None 12 = Fin 1262453"
  "calculateMRR DEFAULT_ASSUMPTIONS None None (Some (Fin 60)) 12 = Fin 1068208"
proof -
  note mrr = calculateMRR_fin [OF default_finite default_nz]
  show "calculateMRR DEFAULT_ASSUMPTIONS None None None 12 = Fin 841635"
    by (subst mrr [of _ 5 _ 6 _ 35]) (simp_all add: default_fields default_customers_12 round_def)
  show "calculateMRR DEFAULT_ASSUMPTIONS (Some (Fin 2)) (Some (Fin 9)) (Some (Fin 60)) 12
        = Fin 1848472"
    by (subst mrr [of _ 2 _ 9 _ 60]) (simp_all add: default_fields default_customers_12 round_def)
  show "calculateMRR DEFAULT_ASSUMPTIONS (Some (Fin 2)) None None 12 = Fin 974161"
    by (subst mrr [of _ 2 _ 6 _ 35]) (simp_all add: default_fields default_customers_12 round_def)
  show "calculateMRR DEFAULT_ASSUMPTIONS None (Some (Fin 9)) None 12 = Fin 1262453"
    by (subst mrr [of _ 5 _ 9 _ 35]) (simp_all add: default_fields default_customers_12 round_def)
  show "calculateMRR DEFAULT_ASSUMPTIONS None None (Some (Fin 60)) 12 = Fin 1068208"
    by (subst mrr [of _ 5 _ 6 _ 60]) (simp_all add: default_fields default_customers_12 round_def)
qed

theorem simulator_nonneg_witness:
  "\<exists>x. month_loop DEFAULT_ASSUMPTIONS (Fin 5) (Fin 35 / activationRate DEFAULT_ASSUMPTIONS)
            12 1 (customers DEFAULT_ASSUMPTIONS) = Fin x \<and> 0 \<le> x
         \<and> js_ge (calculateMRR DEFAULT_ASSUMPTIONS None None None 12) (Fin 0)"
proof -
  have fin: "is_finite (month_loop DEFAULT_ASSUMPTIONS (Fin 5)
               (Fin 35 / activationRate DEFAULT_ASSUMPTIONS) 12 1 (customers DEFAULT_ASSUMPTIONS))"
    by (simp only: month_loop_fin [OF default_finite default_nz]) (simp add: is_finite_def)
  have "(\<forall>k\<le>12. \<exists>x\<ge>0.
            month_loop DEFAULT_ASSUMPTIONS (Fin 5) (Fin 35 / activationRate DEFAULT_ASSUMPTIONS)
              k 1 (customers DEFAULT_ASSUMPTIONS) = Fin x)
         \<and> (\<forall>a\<ge>0. nullish None (arpu DEFAULT_ASSUMPTIONS) = Fin a \<longrightarrow>
              js_ge (calculateMRR DEFAULT_ASSUMPTIONS None None None 12) (Fin 0))"
    using fin by (intro simulator_nonneg) (simp_all add: default_fields)
  then show ?thesis
    by (auto simp: default_fields)
qed

text \<open>
  The claim as stated fails once a number of the run is not finite. With the leads per month
  at \<open>Infinity\<close> and the demo rate at 0, all the sign conditions hold, the first iteration
  computes \<open>Infinity * 0 = NaN\<close> new customers, and the customer count and the MRR are
  \<open>NaN\<close>, which is not \<open>>= 0\<close>. The program reaches the same \<open>Infinity * 0\<close> from finite
  fields whose product overflows.
\<close>

theorem nonfinite_run_counterexample:
  "js_ge (leadsPerMonth (DEFAULT_ASSUMPTIONS\<lparr>leadsPerMonth := PInf, demoRate := Fin 0\<rparr>)) (Fin 0)
   \<and> js_ge (demoRate (DEFAULT_ASSUMPTIONS\<lparr>leadsPerMonth := PInf, demoRate := Fin 0\<rparr>)) (Fin 0)
   \<and> month_loop (DEFAULT_ASSUMPTIONS\<lparr>leadsPerMonth := PInf, demoRate := Fin 0\<rparr>) (Fin 5)
       (Fin 35 / activationRate (DEFAULT_ASSUMPTIONS\<lparr>leadsPerMonth := PInf, demoRate := Fin 0\<rparr>))
       1 1 (customers (DEFAULT_ASSUMPTIONS\<lparr>leadsPerMonth := PInf, demoRate := Fin 0\<rparr>)) = NaN
   \<and> calculateMRR (DEFAULT_ASSUMPTIONS\<lparr>leadsPerMonth := PInf, demoRate := Fin 0\<rparr>)
       None None None 1 = NaN
   \<and> \<not> js_ge NaN (Fin 0)"
  by (simp add: calculateMRR_unfold month_loop_unfold month_loop_done month_step_def
      ACTIVATION_WEIGHT_def default_fields minus_jsnum_def Let_def js_ge_def)

text \<open>
  C9. With the default assumption set, the month-12 MRR with the three overrides at their
  targets (churn 2, ARPU 9, activation 60) is strictly greater than the month-12 MRR of
  each single-lever change alone (one override at its target, the other two unset).
\<close>

theorem all_targets_beat_single_levers:
  "js_gt (calculateMRR DEFAULT_ASSUMPTIONS (Some (Fin 2)) (Some (Fin 9)) (Some (Fin 60)) 12)
         (calculateMRR DEFAULT_ASSUMPTIONS (Some (Fin 2)) None None 12)
   \<and> js_gt (calculateMRR DEFAULT_ASSUMPTIONS (Some (Fin 2)) (Some (Fin 9)) (Some (Fin 60)) 12)
           (calculateMRR DEFAULT_ASSUMPTIONS None (Some (Fin 9)) None 12)
   \<and> js_gt (calculateMRR DEFAULT_ASSUMPTIONS (Some (Fin 2)) (Some (Fin 9)) (Some (Fin 60)) 12)
           (calculateMRR DEFAULT_ASSUMPTIONS None None (Some (Fin 60)) 12)"
  by (simp add: default_MRR_12)

section \<open>Monotonicity of the simulator\<close>

lemma count_churn_antitone:
  assumes new: "\<And>m. nonneg_or_nan (new_customers_of A r m)"
    and "c1 \<le> c2" "c2 \<le> 100" "js_ge x0 (Fin 0)"
    and "month_loop A (Fin c1) r k 1 x0 = Fin u" "month_loop A (Fin c2) r k 1 x0 = Fin v"
  shows "v \<le> u"
  using assms(5,6)
proof (induction k arbitrary: u v)
  case 0
  then show ?case by simp
next
  case (Suc k)
  from Suc.prems(1) obtain u' n where
    u': "month_loop A (Fin c1) r k 1 x0 = Fin u'" and n: "new_customers_of A r (Suc k) = Fin n"
    and u: "u = u' * (1 - c1 / 100) + n"
    unfolding month_loop_Suc1 by (blast dest: month_step_Fin_D)
  from Suc.prems(2) obtain v' n' where
    v': "month_loop A (Fin c2) r k 1 x0 = Fin v'" and n': "new_customers_of A r (Suc k) = Fin n'"
    and v: "v = v' * (1 - c2 / 100) + n'"
    unfolding month_loop_Suc1 by (blast dest: month_step_Fin_D)
  have le: "v' \<le> u'" using u' v' by (rule Suc.IH)
  have lo: "0 \<le> v'" using new assms(3,4) v' by (rule count_nonneg)
  have "v' * (1 - c2 / 100) \<le> u' * (1 - c1 / 100)"
  proof (rule mult_mono)
    show "v' \<le> u'" by (rule le)
    show "1 - c2 / 100 \<le> 1 - c1 / 100" using assms(2) by simp
    show "0 \<le> u'" using lo le by linarith
    show "0 \<le> 1 - c2 / 100" using assms(3) by simp
  qed
  moreover have "n = n'" using n n' by simp
  ultimately show ?case unfolding u v by simp
qed

lemma count_ratio_mono:
  assumes new: "\<And>m n1 n2. new_customers_of A r1 m = Fin n1 \<Longrightarrow>
                  new_customers_of A r2 m = Fin n2 \<Longrightarrow> n1 \<le> n2"
    and "c \<le> 100"
    and "month_loop A (Fin c) r1 k 1 x0 = Fin u" "month_loop A (Fin c) r2 k 1 x0 = Fin v"
  shows "u \<le> v"
  using assms(3,4)
proof (induction k arbitrary: u v)
  case 0
  then show ?case by simp
next
  case (Suc k)
  from Suc.prems(1) obtain u' n1 where
    u': "month_loop A (Fin c) r1 k 1 x0 = Fin u'" and n1: "new_customers_of A r1 (Suc k) = Fin n1"
    and u: "u = u' * (1 - c / 100) + n1"
    unfolding month_loop_Suc1 by (blast dest: month_step_Fin_D)
  from Suc.prems(2) obtain v' n2 where
    v': "month_loop A (Fin c) r2 k 1 x0 = Fin v'" and n2: "new_customers_of A r2 (Suc k) = Fin n2"
    and v: "v = v' * (1 - c / 100) + n2"
    unfolding month_loop_Suc1 by (blast dest: month_step_Fin_D)
  have "u' \<le> v'" using u' v' by (rule Suc.IH)
  moreover have "0 \<le> 1 - c / 100" using assms(2) by simp
  ultimately have "u' * (1 - c / 100) \<le> v' * (1 - c / 100)"
    by (rule mult_right_mono)
  moreover have "n1 \<le> n2" using n1 n2 by (rule new)
  ultimately show ?case unfolding u v by simp
qed

text \<open>
  C5, as amended. On an assumption set with non-negative customers, leads per month, demo,
  trial and paid rates, a lead growth rate of at least \<open>-100\<close> and a strictly positive
  activation rate, at every horizon, from a scenario with finite lever values, churn
  \<open>c2 \<le> 100\<close>, ARPU \<open>a1 \<ge> 0\<close> and activation \<open>act1 \<ge> 0\<close>, and whenever the customer
  counts of the runs compared are finite numbers at the horizon: a lower churn
  \<open>c1 \<le> c2\<close> does not decrease the MRR; a higher ARPU \<open>a2 \<ge> a1\<close> does not decrease
  the MRR (it need not increase it: the rounding absorbs a small increase); a higher
  activation \<open>act2 \<ge> act1\<close> does not decrease the MRR.
\<close>

theorem mrr_monotone:
  assumes "js_ge (customers A) (Fin 0)" "js_ge (leadsPerMonth A) (Fin 0)"
    and "js_ge (demoRate A) (Fin 0)" "js_ge (trialRate A) (Fin 0)"
    and "js_ge (paidRate A) (Fin 0)" "js_ge (leadGrowthRate A) (Fin (- 100))"
    and "js_gt (activationRate A) (Fin 0)"
    and "c1 \<le> c2" "c2 \<le> 100" "0 \<le> a1" "a1 \<le> a2" "0 \<le> act1" "act1 \<le> act2"
    and "is_finite (month_loop A (Fin c2) (Fin act1 / activationRate A) h 1 (customers A))"
    and "is_finite (month_loop A (Fin c1) (Fin act1 / activationRate A) h 1 (customers A))"
    and "is_finite (month_loop A (Fin c2) (Fin act2 / activationRate A) h 1 (customers A))"
  shows "js_ge (calculateMRR A (Some (Fin c1)) (Some (Fin a1)) (Some (Fin act1)) h)
               (calculateMRR A (Some (Fin c2)) (Some (Fin a1)) (Some (Fin act1)) h)
       \<and> js_ge (calculateMRR A (Some (Fin c2)) (Some (Fin a2)) (Some (Fin act1)) h)
               (calculateMRR A (Some (Fin c2)) (Some (Fin a1)) (Some (Fin act1)) h)
       \<and> js_ge (calculateMRR A (Some (Fin c2)) (Some (Fin a1)) (Some (Fin act2)) h)
               (calculateMRR A (Some (Fin c2)) (Some (Fin a1)) (Some (Fin act1)) h)"
proof -
  obtain q where q: "\<And>v. Fin v / activationRate A = Fin (q * v)" "0 \<le> q"
    using activation_ratio [OF assms(7)] by blast
  have funnel: "\<And>m. nonneg_or_nan (funnel_of A m)"
    using assms(2-6) by (rule nn_funnel)
  have new: "\<And>m. nonneg_or_nan (new_customers_of A (Fin act1 / activationRate A) m)"
    unfolding q(1) using funnel assms(12) q(2) by (intro nn_new_customers) simp_all
  from assms(14-16) obtain x y z where
    x: "month_loop A (Fin c2) (Fin act1 / activationRate A) h 1 (customers A) = Fin x"
    and y: "month_loop A (Fin c1) (Fin act1 / activationRate A) h 1 (customers A) = Fin y"
    and z: "month_loop A (Fin c2) (Fin act2 / activationRate A) h 1 (customers A) = Fin z"
    by (auto simp: is_finite_iff)
  have x0: "0 \<le> x" using new assms(9,1) x by (rule count_nonneg)
  have "x \<le> y" using new assms(8,9,1) y x by (rule count_churn_antitone)
  then have "x * a1 * 1000 \<le> y * a1 * 1000"
    using assms(10) by (simp add: mult_right_mono)
  then have churn: "round (x * a1 * 1000) \<le> round (y * a1 * 1000)"
    by (rule round_mono)
  have "x * a1 \<le> x * a2"
    using x0 assms(11) by (rule mult_left_mono [rotated])
  then have arpu: "round (x * a1 * 1000) \<le> round (x * a2 * 1000)"
    by (intro round_mono) simp
  have qle: "q * act1 \<le> q * act2"
    using q(2) assms(13) by (rule mult_left_mono [rotated])
  have "n1 \<le> n2"
    if "new_customers_of A (Fin act1 / activationRate A) m = Fin n1"
      and "new_customers_of A (Fin act2 / activationRate A) m = Fin n2" for m n1 n2
    using funnel [of m] qle that unfolding q(1) by (rule new_customers_mono)
  then have "x \<le> z" using assms(9) x z by (rule count_ratio_mono)
  then have "x * a1 * 1000 \<le> z * a1 * 1000"
    using assms(10) by (simp add: mult_right_mono)
  then have act: "round (x * a1 * 1000) \<le> round (z * a1 * 1000)"
    by (rule round_mono)
  have "calculateMRR A (Some (Fin c2)) (Some (Fin a)) (Some (Fin act1)) h
        = Fin (of_int (round (x * a * 1000)))" for a
    using x by (intro mrr_of_count) simp_all
  moreover have "calculateMRR A (Some (Fin c1)) (Some (Fin a1)) (Some (Fin act1)) h
        = Fin (of_int (round (y * a1 * 1000)))"
    using y by (intro mrr_of_count) simp_all
  moreover have "calculateMRR A (Some (Fin c2)) (Some (Fin a1)) (Some (Fin act2)) h
        = Fin (of_int (round (z * a1 * 1000)))"
    using z by (intro mrr_of_count) simp_all
  ultimately show ?thesis
    using churn arpu act by simp
qed

theorem mrr_monotone_witness:
  "js_ge (calculateMRR DEFAULT_ASSUMPTIONS (Some (Fin 2)) (Some (Fin 6)) (Some (Fin 35)) 12)
         (calculateMRR DEFAULT_ASSUMPTIONS (Some (Fin 5)) (Some (Fin 6)) (Some (Fin 35)) 12)
   \<and> js_ge (calculateMRR DEFAULT_ASSUMPTIONS (Some (Fin 5)) (Some (Fin 9)) (Some (Fin 35)) 12)
           (calculateMRR DEFAULT_ASSUMPTIONS (Some (Fin 5)) (Some (Fin 6)) (Some (Fin 35)) 12)
   \<and> js_ge (calculateMRR DEFAULT_ASSUMPTIONS (Some (Fin 5)) (Some (Fin 6)) (Some (Fin 60)) 12)
           (calculateMRR DEFAULT_ASSUMPTIONS (Some (Fin 5)) (Some (Fin 6)) (Some (Fin 35)) 12)"
proof -
  have fin: "is_finite (month_loop DEFAULT_ASSUMPTIONS (Fin c)
               (Fin act / activationRate DEFAULT_ASSUMPTIONS) 12 1 (customers DEFAULT_ASSUMPTIONS))"
    for c act
    by (simp only: month_loop_fin [OF default_finite default_nz]) (simp add: is_finite_def)
  show ?thesis
    using fin [of 5 35] fin [of 2 35] fin [of 5 60]
    by (intro mrr_monotone) (simp_all add: default_fields)
qed

text \<open>
  The claim as stated fails: \<open>Math.round\<close> absorbs a small increase of the ARPU. At
  horizon 0 the default assumption set gives \<open>round(15 * 6 * 1000) = 90000\<close>, and with
  the ARPU raised to \<open>6 + 1/65536\<close> it gives \<open>round(90000.2288...) = 90000\<close> again.
\<close>

theorem arpu_strict_counterexample:
  "(6::real) < 6 + 1 / 65536
   \<and> \<not> js_gt (calculateMRR DEFAULT_ASSUMPTIONS None (Some (Fin (6 + 1 / 65536))) None 0)
             (calculateMRR DEFAULT_ASSUMPTIONS None (Some (Fin 6)) None 0)"
  by (simp add: calculateMRR_unfold month_loop_done default_fields round_def)

text \<open>
  The range of the churn is needed: above 100 the factor \<open>1 - churn/100\<close> is negative,
  and lowering the churn from 300 to 200 lowers the month-2 MRR of the defaults.
\<close>

lemma churn_out_of_range_not_monotone:
  "(200::real) < 300
   \<and> js_gt (calculateMRR DEFAULT_ASSUMPTIONS (Some (Fin 300)) None None 2)
           (calculateMRR DEFAULT_ASSUMPTIONS (Some (Fin 200)) None None 2)"
proof -
  note mrr = calculateMRR_fin [OF default_finite default_nz]
  have "calculateMRR DEFAULT_ASSUMPTIONS (Some (Fin 300)) None None 2 = Fin 312046"
    by (subst mrr [of _ 300 _ 6 _ 35])
      (simp_all add: default_fields real_new_def eval_nat_numeral round_def)
  moreover have "calculateMRR DEFAULT_ASSUMPTIONS (Some (Fin 200)) None None 2 = Fin 94170"
    by (subst mrr [of _ 200 _ 6 _ 35])
      (simp_all add: default_fields real_new_def eval_nat_numeral round_def)
  ultimately show ?thesis by simp
qed

section \<open>Churn above 100\<close>

text \<open>
  C2, as amended. The simulator does not clamp. On an assumption set of finite numbers with
  a nonzero activation rate and with an effective churn strictly greater than 100, a monthly
  iteration that starts from a positive customer count \<open>x\<close> computes the retained
  customers as \<open>x * (1 - churn/100)\<close>, a negative number, and adds the new customers of
  the month to it.
\<close>

theorem no_churn_clamp:
  assumes "finite_assumptions A" "num (activationRate A) \<noteq> 0" "100 < c" "0 < x"
  shows "month_step A (Fin c) (Fin act / activationRate A) m (Fin x)
           = Fin (x * (1 - c / 100) + real_new A act m)
         \<and> x * (1 - c / 100) < 0"
proof -
  have "1 - c / 100 < 0" using assms(3) by simp
  then have "x * (1 - c / 100) < 0"
    using assms(4) by (simp add: mult_pos_neg)
  then show ?thesis
    by (simp add: month_step_fin [OF assms(1,2)])
qed

theorem no_churn_clamp_witness:
  "month_step DEFAULT_ASSUMPTIONS (Fin 200) (Fin 35 / activationRate DEFAULT_ASSUMPTIONS) 1 (Fin 15)
     = Fin (15 * (1 - 200 / 100) + real_new DEFAULT_ASSUMPTIONS 35 1)
   \<and> 15 * (1 - 200 / 100) < (0::real)"
  using no_churn_clamp [OF default_finite default_nz, of 200 15 35 1] by simp

text \<open>
  The claim as stated fails: with the default assumption set and a monthly churn of 200
  (no override), the customer count after the first iteration is
  \<open>15 * (1 - 2) + 8.68725 = -6.31275\<close> and the returned MRR is negative.
\<close>

theorem churn_above_100_counterexample:
  "month_loop (DEFAULT_ASSUMPTIONS\<lparr>churnRate := Fin 200\<rparr>) (Fin 200)
       (Fin 35 / activationRate (DEFAULT_ASSUMPTIONS\<lparr>churnRate := Fin 200\<rparr>)) 1 1
       (customers (DEFAULT_ASSUMPTIONS\<lparr>churnRate := Fin 200\<rparr>))
     = Fin (- 25251 / 4000)
   \<and> js_gt (Fin 0) (calculateMRR (DEFAULT_ASSUMPTIONS\<lparr>churnRate := Fin 200\<rparr>) None None None 1)"
proof -
  let ?A = "DEFAULT_ASSUMPTIONS\<lparr>churnRate := Fin 200\<rparr>"
  have fin: "finite_assumptions ?A"
    by (simp add: finite_assumptions_def is_finite_def default_fields)
  have nz: "num (activationRate ?A) \<noteq> 0"
    by (simp add: default_fields)
  have cust: "real_customers ?A 200 35 1 = - 25251 / 4000"
    by (simp add: real_new_def default_fields)
  have "month_loop ?A (Fin 200) (Fin 35 / activationRate ?A) 1 1 (customers ?A)
        = Fin (- 25251 / 4000)"
    by (simp only: month_loop_fin [OF fin nz] cust)
  moreover have "calculateMRR ?A None None None 1 = Fin (- 37876)"
    by (subst calculateMRR_fin [OF fin nz, of _ 200 _ 6 _ 35])
      (simp_all add: default_fields real_new_def round_def)
  ultimately show ?thesis by simp
qed

section \<open>Properties of the impact analyzer\<close>

lemma calcIndependentImpact_unfold:
  "calcIndependentImpact A l v
   = Math_round ((scenarioMRR A l v - baselineMRR A) / baselineMRR A * Fin 100)"
  by (cases l) (simp_all add: calcIndependentImpact_def scenarioMRR_def baselineMRR_def Let_def)

lemma scenarioMRR_baseline: "scenarioMRR A l (baseKey l A) = baselineMRR A"
  by (cases l) (simp_all add: scenarioMRR_def baselineMRR_def)

lemma impact_finite:
  assumes "baselineMRR A = Fin b" "b \<noteq> 0" "scenarioMRR A l v = Fin s"
  shows "calcIndependentImpact A l v = Fin (of_int (round ((s - b) / b * 100)))"
  using assms by (simp add: calcIndependentImpact_unfold minus_jsnum_def)

lemma impact_zero_base:
  assumes "baselineMRR A = Fin 0"
  shows "calcIndependentImpact A l v =
           (case scenarioMRR A l v of
              Fin s \<Rightarrow> if s = 0 then NaN else if 0 < s then PInf else NInf
            | PInf \<Rightarrow> PInf | NInf \<Rightarrow> NInf | NaN \<Rightarrow> NaN)"
  using assms
  by (cases "scenarioMRR A l v") (simp_all add: calcIndependentImpact_unfold minus_jsnum_def)

lemma impact_at_baseline:
  assumes "baselineMRR A = Fin b" "b \<noteq> 0"
  shows "calcIndependentImpact A l (baseKey l A) = Fin 0"
  using assms by (simp add: impact_finite scenarioMRR_baseline)

text \<open>
  C7, as amended. For every assumption set whose baseline month-12 MRR is a finite number
  other than zero, and for each of the three levers, \<open>calcIndependentImpact\<close> applied to
  the lever with the assumption set's own baseline field as candidate value returns 0.
\<close>

theorem baseline_neutral_impact:
  assumes "calculateMRR A (Some (churnRate A)) (Some (arpu A)) (Some (activationRate A)) 12
           = Fin b"
    and "b \<noteq> 0"
  shows "calcIndependentImpact A Churn (churnRate A) = Fin 0
       \<and> calcIndependentImpact A Arpu (arpu A) = Fin 0
       \<and> calcIndependentImpact A Activation (activationRate A) = Fin 0"
proof -
  have base: "baselineMRR A = Fin b"
    using assms(1) by (simp add: baselineMRR_def)
  show ?thesis
    using impact_at_baseline [OF base assms(2), of Churn]
      impact_at_baseline [OF base assms(2), of Arpu]
      impact_at_baseline [OF base assms(2), of Activation]
    by simp
qed

lemma default_baselineMRR: "baselineMRR DEFAULT_ASSUMPTIONS = Fin 841635"
  using default_MRR_12(1) by (simp add: baselineMRR_def calculateMRR_unfold)

lemma default_scenarioMRR:
  "scenarioMRR DEFAULT_ASSUMPTIONS Churn (Fin 2) = Fin 974161"
  "scenarioMRR DEFAULT_ASSUMPTIONS Arpu (Fin 9) = Fin 1262453"
  "scenarioMRR DEFAULT_ASSUMPTIONS Activation (Fin 60) = Fin 1068208"
  using default_MRR_12(3-5) by (simp_all add: scenarioMRR_def calculateMRR_unfold)

lemma default_impacts:
  "calcIndependentImpact DEFAULT_ASSUMPTIONS Churn (Fin 2) = Fin 16"
  "calcIndependentImpact DEFAULT_ASSUMPTIONS Arpu (Fin 9) = Fin 50"
  "calcIndependentImpact DEFAULT_ASSUMPTIONS Activation (Fin 60) = Fin 27"
  "calcIndependentImpact DEFAULT_ASSUMPTIONS Churn (Fin 5) = Fin 0"
  "calcIndependentImpact DEFAULT_ASSUMPTIONS Arpu (Fin 6) = Fin 0"
  "calcIndependentImpact DEFAULT_ASSUMPTIONS Activation (Fin 35) = Fin 0"
proof -
  note imp = impact_finite [OF default_baselineMRR]
  show "calcIndependentImpact DEFAULT_ASSUMPTIONS Churn (Fin 2) = Fin 16"
    by (subst imp [OF _ default_scenarioMRR(1)]) (simp_all add: round_def)
  show "calcIndependentImpact DEFAULT_ASSUMPTIONS Arpu (Fin 9) = Fin 50"
    by (subst imp [OF _ default_scenarioMRR(2)]) (simp_all add: round_def)
  show "calcIndependentImpact DEFAULT_ASSUMPTIONS Activation (Fin 60) = Fin 27"
    by (subst imp [OF _ default_scenarioMRR(3)]) (simp_all add: round_def)
  show "calcIndependentImpact DEFAULT_ASSUMPTIONS Churn (Fin 5) = Fin 0"
    using impact_at_baseline [OF default_baselineMRR, of Churn] by (simp add: default_fields)
  show "calcIndependentImpact DEFAULT_ASSUMPTIONS Arpu (Fin 6) = Fin 0"
    using impact_at_baseline [OF default_baselineMRR, of Arpu] by (simp add: default_fields)
  show "calcIndependentImpact DEFAULT_ASSUMPTIONS Activation (Fin 35) = Fin 0"
    using impact_at_baseline [OF default_baselineMRR, of Activation] by (simp add: default_fields)
qed

theorem baseline_neutral_impact_witness:
  "calcIndependentImpact DEFAULT_ASSUMPTIONS Churn (churnRate DEFAULT_ASSUMPTIONS) = Fin 0
   \<and> calcIndependentImpact DEFAULT_ASSUMPTIONS Arpu (arpu DEFAULT_ASSUMPTIONS) = Fin 0
   \<and> calcIndependentImpact DEFAULT_ASSUMPTIONS Activation (activationRate DEFAULT_ASSUMPTIONS)
       = Fin 0"
proof -
  have "calculateMRR DEFAULT_ASSUMPTIONS (Some (churnRate DEFAULT_ASSUMPTIONS))
          (Some (arpu DEFAULT_ASSUMPTIONS)) (Some (activationRate DEFAULT_ASSUMPTIONS)) 12
        = Fin 841635"
    using default_baselineMRR by (simp add: baselineMRR_def)
  then show ?thesis
    by (rule baseline_neutral_impact) simp
qed

text \<open>
  The claim as stated fails on an assumption set with a baseline MRR of zero: with a
  monthly churn of 100 and no leads, every month retains \<open>customers * 0 = 0\<close>
  customers and adds none, both MRR values are 0 and the impact is \<open>0 / 0 = NaN\<close>.
\<close>

theorem baseline_neutral_counterexample:
  "calcIndependentImpact (DEFAULT_ASSUMPTIONS\<lparr>churnRate := Fin 100, leadsPerMonth := Fin 0\<rparr>)
     Churn (churnRate (DEFAULT_ASSUMPTIONS\<lparr>churnRate := Fin 100, leadsPerMonth := Fin 0\<rparr>)) = NaN
   \<and> calcIndependentImpact (DEFAULT_ASSUMPTIONS\<lparr>churnRate := Fin 100, leadsPerMonth := Fin 0\<rparr>)
     Arpu (arpu (DEFAULT_ASSUMPTIONS\<lparr>churnRate := Fin 100, leadsPerMonth := Fin 0\<rparr>)) = NaN
   \<and> calcIndependentImpact (DEFAULT_ASSUMPTIONS\<lparr>churnRate := Fin 100, leadsPerMonth := Fin 0\<rparr>)
     Activation (activationRate (DEFAULT_ASSUMPTIONS\<lparr>churnRate := Fin 100, leadsPerMonth := Fin 0\<rparr>))
     = NaN"
proof -
  let ?A = "DEFAULT_ASSUMPTIONS\<lparr>churnRate := Fin 100, leadsPerMonth := Fin 0\<rparr>"
  have fin: "finite_assumptions ?A"
    by (simp add: finite_assumptions_def is_finite_def default_fields)
  have nz: "num (activationRate ?A) \<noteq> 0"
    by (simp add: default_fields)
  have "real_customers ?A 100 35 12 = 0"
    by (simp add: real_new_def default_fields eval_nat_numeral)
  then have base: "baselineMRR ?A = Fin 0"
    unfolding baselineMRR_def
    by (subst calculateMRR_fin [OF fin nz, of _ 100 _ 6 _ 35]) (simp_all add: default_fields)
  have "calcIndependentImpact ?A l (baseKey l ?A) = NaN" for l
    by (simp add: impact_zero_base [OF base] scenarioMRR_baseline base)
  from this [of Churn] this [of Arpu] this [of Activation] show ?thesis
    by simp
qed

section \<open>A baseline MRR of zero\<close>

text \<open>The default assumption set with the ARPU field at 0 (what the input handler stores
  for an emptied field) has a baseline month-12 MRR of 0.\<close>

lemma zero_arpu_finite: "finite_assumptions (DEFAULT_ASSUMPTIONS\<lparr>arpu := Fin 0\<rparr>)"
  by (simp add: finite_assumptions_def is_finite_def default_fields)

lemma zero_arpu_nz: "num (activationRate (DEFAULT_ASSUMPTIONS\<lparr>arpu := Fin 0\<rparr>)) \<noteq> 0"
  by (simp add: default_fields)

lemma real_customers_arpu_update:
  "real_customers (A\<lparr>arpu := x\<rparr>) c act h = real_customers A c act h"
  by (induction h) (simp_all add: real_new_def)

lemma zero_arpu_baselineMRR: "baselineMRR (DEFAULT_ASSUMPTIONS\<lparr>arpu := Fin 0\<rparr>) = Fin 0"
  unfolding baselineMRR_def
  by (subst calculateMRR_fin [OF zero_arpu_finite zero_arpu_nz, of _ 5 _ 0 _ 35])
     (simp_all add: default_fields)

lemma zero_arpu_scenarioMRR:
  "scenarioMRR (DEFAULT_ASSUMPTIONS\<lparr>arpu := Fin 0\<rparr>) Churn (Fin c) = Fin 0"
  "scenarioMRR (DEFAULT_ASSUMPTIONS\<lparr>arpu := Fin 0\<rparr>) Arpu (Fin 9) = Fin 1262453"
  "scenarioMRR (DEFAULT_ASSUMPTIONS\<lparr>arpu := Fin 0\<rparr>) Activation (Fin v) = Fin 0"
proof -
  note mrr = calculateMRR_fin [OF zero_arpu_finite zero_arpu_nz]
  show "scenarioMRR (DEFAULT_ASSUMPTIONS\<lparr>arpu := Fin 0\<rparr>) Churn (Fin c) = Fin 0"
    unfolding scenarioMRR_def
    by (subst mrr [of _ c _ 0 _ 35]) (simp_all add: default_fields)
  show "scenarioMRR (DEFAULT_ASSUMPTIONS\<lparr>arpu := Fin 0\<rparr>) Arpu (Fin 9) = Fin 1262453"
    unfolding scenarioMRR_def
    by (subst mrr [of _ 5 _ 9 _ 35])
      (simp_all add: default_fields real_customers_arpu_update default_customers_12 round_def)
  show "scenarioMRR (DEFAULT_ASSUMPTIONS\<lparr>arpu := Fin 0\<rparr>) Activation (Fin v) = Fin 0"
    unfolding scenarioMRR_def
    by (subst mrr [of _ 5 _ 0 _ v]) (simp_all add: default_fields)
qed

lemma zero_arpu_impacts:
  "calcIndependentImpact (DEFAULT_ASSUMPTIONS\<lparr>arpu := Fin 0\<rparr>) Churn (Fin c) = NaN"
  "calcIndependentImpact (DEFAULT_ASSUMPTIONS\<lparr>arpu := Fin 0\<rparr>) Arpu (Fin 9) = PInf"
  "calcIndependentImpact (DEFAULT_ASSUMPTIONS\<lparr>arpu := Fin 0\<rparr>) Activation (Fin v) = NaN"
  by (simp_all add: impact_zero_base [OF zero_arpu_baselineMRR] zero_arpu_scenarioMRR)

section \<open>Properties of sorting\<close>

lemma js_sort_snoc: "js_sort cmp (xs @ [x]) = js_insert cmp x (js_sort cmp xs)"
  by (simp add: js_sort_def)

lemma js_sort_Nil [simp]: "js_sort cmp [] = []"
  by (simp add: js_sort_def)

lemma js_insert_last:
  "\<forall>y\<in>set ys. \<not> js_gt (Fin 0) (cmp x y) \<Longrightarrow> js_insert cmp x ys = ys @ [x]"
  by (induction ys) simp_all

lemma set_js_insert [simp]: "set (js_insert cmp x ys) = insert x (set ys)"
  by (induction ys) auto

lemma set_js_sort [simp]: "set (js_sort cmp xs) = set xs"
  by (induction xs rule: rev_induct) (simp_all add: js_sort_snoc)

lemma length_js_insert [simp]: "length (js_insert cmp x ys) = Suc (length ys)"
  by (induction ys) simp_all

lemma length_js_sort [simp]: "length (js_sort cmp xs) = length xs"
  by (induction xs rule: rev_induct) (simp_all add: js_sort_snoc)

text \<open>A comparator that never asks for a swap leaves the list as it is.\<close>

lemma js_sort_unchanged:
  "\<forall>x\<in>set xs. \<forall>y\<in>set xs. \<not> js_gt (Fin 0) (cmp x y) \<Longrightarrow> js_sort cmp xs = xs"
proof (induction xs rule: rev_induct)
  case Nil
  show ?case by simp
next
  case (snoc x xs)
  then have "js_sort cmp xs = xs" by simp
  moreover have "\<forall>y\<in>set xs. \<not> js_gt (Fin 0) (cmp x y)"
    using snoc.prems by simp
  ultimately show ?case
    by (simp add: js_sort_snoc js_insert_last)
qed

lemma js_sort3:
  "js_sort cmp [a, b, c] \<in> {[a, b, c], [a, c, b], [b, a, c], [b, c, a], [c, a, b], [c, b, a]}"
  by (simp add: js_sort_def)

lemma jsnum_add_commute: "(x::jsnum) + y = y + x"
  by (cases x; cases y) simp_all

lemma jsnum_add_zero [simp]: "Fin 0 + x = x"
  by (cases x) simp_all

text \<open>With finite keys, sorting by \<open>key b - key a\<close> returns a permutation that is
  descending in the key and keeps elements of equal key in their order.\<close>

lemma mset_js_insert [simp]: "mset (js_insert cmp x ys) = add_mset x (mset ys)"
  by (induction ys) simp_all

lemma mset_js_sort [simp]: "mset (js_sort cmp xs) = mset xs"
  by (induction xs rule: rev_induct) (simp_all add: js_sort_snoc)

lemma finite_key_compare:
  assumes "is_finite p" "is_finite q"
  shows "js_gt (Fin 0) (q - p) = (num q < num p)" "js_ge p q = (num q \<le> num p)"
  using assms by (cases p; cases q; auto simp: is_finite_def minus_jsnum_def js_ge_def)+

lemma js_insert_sorted:
  assumes "\<forall>y\<in>set (x # ys). is_finite (key y)"
    and "sorted_wrt (\<lambda>a b. js_ge (key a) (key b)) ys"
  shows "sorted_wrt (\<lambda>a b. js_ge (key a) (key b)) (js_insert (\<lambda>a b. key b - key a) x ys)"
  using assms
proof (induction ys)
  case Nil
  show ?case by simp
next
  case (Cons y ys)
  show ?case
  proof (cases "js_gt (Fin 0) (key y - key x)")
    case True
    then have "num (key y) < num (key x)"
      using Cons.prems(1) by (simp add: finite_key_compare)
    moreover have "\<forall>z\<in>set ys. num (key z) \<le> num (key y)"
      using Cons.prems by (simp add: finite_key_compare)
    ultimately have "\<forall>z\<in>set (y # ys). js_ge (key x) (key z)"
      using Cons.prems(1) by (fastforce simp: finite_key_compare)
    with True Cons.prems(2) show ?thesis by simp
  next
    case False
    then have "js_ge (key y) (key x)"
      using Cons.prems(1) by (simp add: finite_key_compare not_less)
    moreover have "sorted_wrt (\<lambda>a b. js_ge (key a) (key b)) (js_insert (\<lambda>a b. key b - key a) x ys)"
      using Cons by simp
    ultimately show ?thesis
      using False Cons.prems(2) by simp
  qed
qed

lemma js_insert_stable:
  assumes "\<forall>y\<in>set (x # ys). is_finite (key y)"
    and "sorted_wrt (\<lambda>a b. js_ge (key a) (key b)) ys"
  shows "filter (\<lambda>i. key i = k) (js_insert (\<lambda>a b. key b - key a) x ys)
         = filter (\<lambda>i. key i = k) ys @ (if key x = k then [x] else [])"
  using assms
proof (induction ys)
  case Nil
  show ?case by simp
next
  case (Cons y ys)
  show ?case
  proof (cases "js_gt (Fin 0) (key y - key x)")
    case True
    then have lt: "num (key y) < num (key x)"
      using Cons.prems(1) by (simp add: finite_key_compare)
    have "\<forall>z\<in>set ys. num (key z) \<le> num (key y)"
      using Cons.prems by (simp add: finite_key_compare)
    with lt have "\<forall>z\<in>set (y # ys). key z \<noteq> key x"
      by fastforce
    then have "key x = k \<Longrightarrow> filter (\<lambda>i. key i = k) (y # ys) = []"
      by (auto simp: filter_empty_conv)
    with True show ?thesis by auto
  next
    case False
    with Cons show ?thesis by simp
  qed
qed

lemma js_sort_sorted:
  assumes "\<forall>y\<in>set xs. is_finite (key y)"
  shows "sorted_wrt (\<lambda>a b. js_ge (key a) (key b)) (js_sort (\<lambda>a b. key b - key a) xs)"
  using assms
  by (induction xs rule: rev_induct) (simp_all add: js_sort_snoc js_insert_sorted)

lemma js_sort_stable:
  assumes "\<forall>y\<in>set xs. is_finite (key y)"
  shows "filter (\<lambda>i. key i = k) (js_sort (\<lambda>a b. key b - key a) xs) = filter (\<lambda>i. key i = k) xs"
  using assms
  by (induction xs rule: rev_induct)
     (simp_all add: js_sort_snoc js_insert_stable js_sort_sorted)

section \<open>Properties of the insight ranker\<close>

text \<open>The template that \<open>generateCoreInsight\<close> selects, from the three absolute
  impacts: by cases on the order the sort leaves the three levers in and on which of them
  are modified.\<close>

lemma generateCoreInsight_select:
  "\<exists>t1 p1 t2 p2.
     generateCoreInsight A ch ar ac =
       (if length (filter (\<lambda>p. js_gt p (Fin 0))
             [absImpact A Churn ch, absImpact A Arpu ar, absImpact A Activation ac]) = 0
        then UpsideAtTargets t1 p1 t2 p2
        else if length (filter (\<lambda>p. js_gt p (Fin 0))
             [absImpact A Churn ch, absImpact A Arpu ar, absImpact A Activation ac]) = 1
        then SingleLever t1 p1
        else if js_gt (absImpact A Churn ch) (Fin 0) \<and> js_gt (absImpact A Arpu ar) (Fin 0)
                \<and> js_gt (absImpact A Activation ac) (Fin 0)
                \<and> js_gt (absImpact A Churn ch + absImpact A Arpu ar)
                     (absImpact A Activation ac * Fin (3 / 2))
        then RetentionMonetization (absImpact A Churn ch + absImpact A Arpu ar)
               (absImpact A Activation ac)
        else LargestLever t1 p1 (Some (t2, p2)))"
  using js_sort3 [of "\<lambda>a b. pct b - pct a"
      "\<lparr>label = ''retention'', pct = absImpact A Churn ch, leverId = Churn\<rparr>"
      "\<lparr>label = ''monetization'', pct = absImpact A Arpu ar, leverId = Arpu\<rparr>"
      "\<lparr>label = ''activation'', pct = absImpact A Activation ac, leverId = Activation\<rparr>"]
  unfolding generateCoreInsight_def Let_def
  by (cases "js_gt (absImpact A Churn ch) (Fin 0)"; cases "js_gt (absImpact A Arpu ar) (Fin 0)";
      cases "js_gt (absImpact A Activation ac) (Fin 0)")
     (auto simp: jsnum_add_commute)

text \<open>
  C4, as amended. For every assumption set and current lever values under which two or more
  levers have a nonzero absolute independent impact (\<open>pct > 0\<close>), the insight selection
  picks the "retention + monetization beat activation" template exactly when all three
  levers have a nonzero impact and the combined impact of retention and monetization
  exceeds the activation impact scaled by 1.5, and fills it with that sum and the
  activation impact; otherwise it picks the generic "largest lever, combined with the
  runner-up" template.
\<close>

theorem insight_template_selection:
  assumes "2 \<le> length (filter (\<lambda>p. js_gt p (Fin 0))
             [absImpact A Churn ch, absImpact A Arpu ar, absImpact A Activation ac])"
  shows "if js_gt (absImpact A Churn ch) (Fin 0) \<and> js_gt (absImpact A Arpu ar) (Fin 0)
            \<and> js_gt (absImpact A Activation ac) (Fin 0)
            \<and> js_gt (absImpact A Churn ch + absImpact A Arpu ar)
                 (absImpact A Activation ac * Fin (3 / 2))
         then generateCoreInsight A ch ar ac
              = RetentionMonetization (absImpact A Churn ch + absImpact A Arpu ar)
                  (absImpact A Activation ac)
         else \<exists>t1 p1 t2 p2. generateCoreInsight A ch ar ac = LargestLever t1 p1 (Some (t2, p2))"
proof -
  from assms have
    "length (filter (\<lambda>p. js_gt p (Fin 0))
       [absImpact A Churn ch, absImpact A Arpu ar, absImpact A Activation ac]) \<noteq> 0"
    "length (filter (\<lambda>p. js_gt p (Fin 0))
       [absImpact A Churn ch, absImpact A Arpu ar, absImpact A Activation ac]) \<noteq> 1"
    by linarith+
  with generateCoreInsight_select [of A ch ar ac] show ?thesis
    by (auto simp only: if_False if_True split: if_splits)
qed

theorem insight_template_selection_witness:
  "generateCoreInsight DEFAULT_ASSUMPTIONS (Fin 2) (Fin 9) (Fin 60)
   = RetentionMonetization (Fin 66) (Fin 27)"
  using insight_template_selection [of DEFAULT_ASSUMPTIONS "Fin 2" "Fin 9" "Fin 60"]
  by (simp add: default_impacts)

text \<open>
  The claim as stated fails when the activation lever is not modified: with the defaults,
  churn at 2, ARPU at 9 and activation at its baseline 35, the impacts are 16, 50 and 0;
  the combined 66 exceeds \<open>0 * 1.5\<close>, and the generic template is selected.
\<close>

theorem activation_unmodified_counterexample:
  "absImpact DEFAULT_ASSUMPTIONS Churn (Fin 2) = Fin 16
   \<and> absImpact DEFAULT_ASSUMPTIONS Arpu (Fin 9) = Fin 50
   \<and> absImpact DEFAULT_ASSUMPTIONS Activation (Fin 35) = Fin 0
   \<and> js_gt (Fin 16 + Fin 50) (Fin 0 * Fin (3 / 2))
   \<and> generateCoreInsight DEFAULT_ASSUMPTIONS (Fin 2) (Fin 9) (Fin 35)
       = LargestLever ''monetization'' (Fin 50) (Some (''retention'', Fin 16))"
  by (simp add: default_impacts generateCoreInsight_def js_sort_def minus_jsnum_def Let_def)

section \<open>The impact analyzer on a baseline MRR of zero\<close>

lemma abs_impact_zero_base:
  assumes "baselineMRR A = Fin 0"
  shows "absImpact A l v = NaN \<or> absImpact A l v = PInf"
  by (cases "scenarioMRR A l v") (simp_all add: impact_zero_base [OF assms])

lemma remaining_zero_base:
  assumes "baselineMRR A = Fin 0"
  shows "\<forall>i\<in>set (map withRemaining (upsides A ch ar ac)). remaining i = NaN"
proof -
  have "Math_max (Fin 0) (absImpact A l v - absImpact A l' v') = NaN" for l v l' v'
    using abs_impact_zero_base [OF assms, of l v] abs_impact_zero_base [OF assms, of l' v']
    by (auto simp: minus_jsnum_def)
  then show ?thesis
    by (simp add: upsides_def planItems_def withRemaining_def)
qed

text \<open>
  C3, as amended. For every assumption set whose baseline month-12 MRR is zero and every
  lever and candidate value, \<open>calcIndependentImpact\<close> returns no sentinel: it returns
  \<open>NaN\<close> or an infinite value, \<open>NaN\<close> when the scenario MRR is zero as well and an
  infinite value when the scenario MRR is a nonzero finite number. The insight ranker counts
  a lever as modified exactly when its impact is infinite, so it selects the "no changes
  yet" template exactly when none of the three current impacts is infinite (a \<open>NaN\<close>
  impact ranks as zero impact, an infinite one does not). The prioritizer computes
  \<open>remaining = NaN\<close> for every initiative and leaves the initiatives in their declared
  order.
\<close>

theorem zero_baseline_impact:
  assumes "calculateMRR A (Some (churnRate A)) (Some (arpu A)) (Some (activationRate A)) 12
           = Fin 0"
  shows "(calcIndependentImpact A l v = NaN \<or> is_infinite (calcIndependentImpact A l v))
       \<and> (scenarioMRR A l v = Fin 0 \<longrightarrow> calcIndependentImpact A l v = NaN)
       \<and> (\<forall>s. scenarioMRR A l v = Fin s \<longrightarrow> s \<noteq> 0 \<longrightarrow>
             is_infinite (calcIndependentImpact A l v))
       \<and> js_gt (absImpact A l v) (Fin 0) = is_infinite (calcIndependentImpact A l v)
       \<and> (\<exists>t1 p1 t2 p2. generateCoreInsight A ch ar ac = UpsideAtTargets t1 p1 t2 p2)
           = (\<not> is_infinite (calcIndependentImpact A Churn ch)
              \<and> \<not> is_infinite (calcIndependentImpact A Arpu ar)
              \<and> \<not> is_infinite (calcIndependentImpact A Activation ac))
       \<and> remainingUpside A ch ar ac = map withRemaining (upsides A ch ar ac)
       \<and> (\<forall>i\<in>set (remainingUpside A ch ar ac). remaining i = NaN)"
proof -
  have base: "baselineMRR A = Fin 0"
    using assms by (simp add: baselineMRR_def)
  note imp = impact_zero_base [OF base]
  have 1: "calcIndependentImpact A l v = NaN \<or> is_infinite (calcIndependentImpact A l v)"
    by (cases "scenarioMRR A l v") (simp_all add: imp is_infinite_def)
  have 2: "scenarioMRR A l v = Fin 0 \<longrightarrow> calcIndependentImpact A l v = NaN"
    by (simp add: imp)
  have 3: "\<forall>s. scenarioMRR A l v = Fin s \<longrightarrow> s \<noteq> 0 \<longrightarrow> is_infinite (calcIndependentImpact A l v)"
    by (simp add: imp is_infinite_def)
  have 4: "js_gt (absImpact A l' v') (Fin 0) = is_infinite (calcIndependentImpact A l' v')"
    for l' v'
    by (cases "scenarioMRR A l' v'") (simp_all add: imp is_infinite_def)
  have 5: "(\<exists>t1 p1 t2 p2. generateCoreInsight A ch ar ac = UpsideAtTargets t1 p1 t2 p2)
           = (\<not> is_infinite (calcIndependentImpact A Churn ch)
              \<and> \<not> is_infinite (calcIndependentImpact A Arpu ar)
              \<and> \<not> is_infinite (calcIndependentImpact A Activation ac))"
    using generateCoreInsight_select [of A ch ar ac]
    unfolding 4 [symmetric]
    by (auto split: if_splits)
  have nan: "\<forall>i\<in>set (map withRemaining (upsides A ch ar ac)). remaining i = NaN"
    by (rule remaining_zero_base [OF base])
  then have 6: "remainingUpside A ch ar ac = map withRemaining (upsides A ch ar ac)"
    unfolding remainingUpside_def
    by (intro js_sort_unchanged) (simp add: minus_jsnum_def)
  have 7: "\<forall>i\<in>set (remainingUpside A ch ar ac). remaining i = NaN"
    using nan by (simp only: 6)
  from 1 2 3 4 [of l v] 5 6 7 show ?thesis
    by (intro conjI)
qed

theorem zero_baseline_impact_witness:
  "is_infinite (calcIndependentImpact (DEFAULT_ASSUMPTIONS\<lparr>arpu := Fin 0\<rparr>) Arpu (Fin 9))
   \<and> js_gt (absImpact (DEFAULT_ASSUMPTIONS\<lparr>arpu := Fin 0\<rparr>) Arpu (Fin 9)) (Fin 0)
   \<and> remainingUpside (DEFAULT_ASSUMPTIONS\<lparr>arpu := Fin 0\<rparr>) (Fin 5) (Fin 9) (Fin 35)
       = map withRemaining (upsides (DEFAULT_ASSUMPTIONS\<lparr>arpu := Fin 0\<rparr>) (Fin 5) (Fin 9) (Fin 35))"
proof -
  let ?A = "DEFAULT_ASSUMPTIONS\<lparr>arpu := Fin 0\<rparr>"
  have "calculateMRR ?A (Some (churnRate ?A)) (Some (arpu ?A)) (Some (activationRate ?A)) 12
        = Fin 0"
    using zero_arpu_baselineMRR by (simp add: baselineMRR_def)
  from zero_baseline_impact [OF this, of Arpu "Fin 9" "Fin 5" "Fin 9" "Fin 35"]
  show ?thesis
    by (simp add: zero_arpu_scenarioMRR)
qed

text \<open>
  The claim as stated fails: with the ARPU field at 0 the baseline MRR is 0, the impact of
  the ARPU lever at 9 is \<open>(1262453 - 0) / 0 = Infinity\<close>, and the insight ranker takes
  monetization as the one modified lever, with an impact of \<open>Infinity\<close>.
\<close>

theorem zero_baseline_counterexample:
  "calculateMRR (DEFAULT_ASSUMPTIONS\<lparr>arpu := Fin 0\<rparr>)
     (Some (churnRate (DEFAULT_ASSUMPTIONS\<lparr>arpu := Fin 0\<rparr>)))
     (Some (arpu (DEFAULT_ASSUMPTIONS\<lparr>arpu := Fin 0\<rparr>)))
     (Some (activationRate (DEFAULT_ASSUMPTIONS\<lparr>arpu := Fin 0\<rparr>))) 12 = Fin 0
   \<and> calcIndependentImpact (DEFAULT_ASSUMPTIONS\<lparr>arpu := Fin 0\<rparr>) Arpu (Fin 9) = PInf
   \<and> generateCoreInsight (DEFAULT_ASSUMPTIONS\<lparr>arpu := Fin 0\<rparr>) (Fin 5) (Fin 9) (Fin 35)
       = SingleLever ''monetization'' PInf"
proof -
  let ?A = "DEFAULT_ASSUMPTIONS\<lparr>arpu := Fin 0\<rparr>"
  have "calculateMRR ?A (Some (churnRate ?A)) (Some (arpu ?A)) (Some (activationRate ?A)) 12
        = Fin 0"
    using zero_arpu_baselineMRR by (simp add: baselineMRR_def)
  moreover have "generateCoreInsight ?A (Fin 5) (Fin 9) (Fin 35) = SingleLever ''monetization'' PInf"
    by (simp add: generateCoreInsight_def zero_arpu_impacts js_sort_def minus_jsnum_def Let_def)
  ultimately show ?thesis
    by (simp add: zero_arpu_impacts)
qed

section \<open>Properties of the upside prioritizer\<close>

lemma upsides_list:
  "map withRemaining (upsides A ch ar ac) =
     [ \<lparr>planLeverId = Churn, upside = absImpact A Churn (Fin 2),
         currentImpact = absImpact A Churn ch,
         remaining = Math_max (Fin 0) (absImpact A Churn (Fin 2) - absImpact A Churn ch)\<rparr>,
       \<lparr>planLeverId = Activation, upside = absImpact A Activation (Fin 60),
         currentImpact = absImpact A Activation ac,
         remaining = Math_max (Fin 0)
           (absImpact A Activation (Fin 60) - absImpact A Activation ac)\<rparr>,
       \<lparr>planLeverId = Arpu, upside = absImpact A Arpu (Fin 9),
         currentImpact = absImpact A Arpu ar,
         remaining = Math_max (Fin 0) (absImpact A Arpu (Fin 9) - absImpact A Arpu ar)\<rparr> ]"
  by (simp add: upsides_def planItems_def withRemaining_def)

text \<open>
  C8, as amended. For every assumption set and current effective lever values for which the
  six independent impacts (of each lever at its target value and at its current value) are
  finite numbers: the plan lists the initiatives retention, activation, monetization in
  this declared order; each is assigned \<open>remaining = max(0, |impact at the lever's
  target| - |impact at the lever's current value|)\<close>, a finite number that is at least
  0; and the output is a permutation of the three initiatives, sorted descending by
  \<open>remaining\<close>, in which initiatives of equal \<open>remaining\<close> keep their declared order.
\<close>

theorem prioritizer_sorted:
  assumes "is_finite (calcIndependentImpact A Churn (Fin 2))"
    and "is_finite (calcIndependentImpact A Arpu (Fin 9))"
    and "is_finite (calcIndependentImpact A Activation (Fin 60))"
    and "is_finite (calcIndependentImpact A Churn ch)"
    and "is_finite (calcIndependentImpact A Arpu ar)"
    and "is_finite (calcIndependentImpact A Activation ac)"
  shows "map planLeverId (map withRemaining (upsides A ch ar ac)) = [Churn, Activation, Arpu]
       \<and> (\<forall>i\<in>set (remainingUpside A ch ar ac).
            upside i = absImpact A (planLeverId i) (targetValue (planLeverId i))
            \<and> currentImpact i = absImpact A (planLeverId i)
                (case planLeverId i of Churn \<Rightarrow> ch | Arpu \<Rightarrow> ar | Activation \<Rightarrow> ac)
            \<and> remaining i = Math_max (Fin 0) (upside i - currentImpact i)
            \<and> is_finite (remaining i) \<and> js_ge (remaining i) (Fin 0))
       \<and> mset (remainingUpside A ch ar ac) = mset (map withRemaining (upsides A ch ar ac))
       \<and> sorted_wrt (\<lambda>x y. js_ge (remaining x) (remaining y)) (remainingUpside A ch ar ac)
       \<and> (\<forall>k. filter (\<lambda>i. remaining i = k) (remainingUpside A ch ar ac)
               = filter (\<lambda>i. remaining i = k) (map withRemaining (upsides A ch ar ac)))"
proof -
  let ?U = "map withRemaining (upsides A ch ar ac)"
  have rem: "\<exists>q\<ge>0. Math_max (Fin 0) (Math_abs x - Math_abs y) = Fin q"
    if "is_finite x" "is_finite y" for x y
    using that by (auto simp: is_finite_iff minus_jsnum_def)
  have order: "map planLeverId ?U = [Churn, Activation, Arpu]"
    by (simp add: upsides_list)
  have items: "\<forall>i\<in>set ?U.
            upside i = absImpact A (planLeverId i) (targetValue (planLeverId i))
            \<and> currentImpact i = absImpact A (planLeverId i)
                (case planLeverId i of Churn \<Rightarrow> ch | Arpu \<Rightarrow> ar | Activation \<Rightarrow> ac)
            \<and> remaining i = Math_max (Fin 0) (upside i - currentImpact i)
            \<and> is_finite (remaining i) \<and> js_ge (remaining i) (Fin 0)"
    using rem [OF assms(1,4)] rem [OF assms(2,5)] rem [OF assms(3,6)]
    by (auto simp: upsides_list is_finite_def)
  then have fin: "\<forall>i\<in>set ?U. is_finite (remaining i)"
    by blast
  have sorted: "sorted_wrt (\<lambda>x y. js_ge (remaining x) (remaining y)) (remainingUpside A ch ar ac)"
    unfolding remainingUpside_def using fin by (rule js_sort_sorted)
  have stable: "filter (\<lambda>i. remaining i = k) (remainingUpside A ch ar ac)
                = filter (\<lambda>i. remaining i = k) ?U" for k
    unfolding remainingUpside_def using fin by (rule js_sort_stable)
  have items': "\<forall>i\<in>set (remainingUpside A ch ar ac).
            upside i = absImpact A (planLeverId i) (targetValue (planLeverId i))
            \<and> currentImpact i = absImpact A (planLeverId i)
                (case planLeverId i of Churn \<Rightarrow> ch | Arpu \<Rightarrow> ar | Activation \<Rightarrow> ac)
            \<and> remaining i = Math_max (Fin 0) (upside i - currentImpact i)
            \<and> is_finite (remaining i) \<and> js_ge (remaining i) (Fin 0)"
    using items by (simp only: remainingUpside_def set_js_sort)
  have perm: "mset (remainingUpside A ch ar ac) = mset ?U"
    by (simp only: remainingUpside_def mset_js_sort)
  from order items' perm sorted stable show ?thesis
    by (intro conjI allI)
qed

theorem prioritizer_sorted_witness:
  "sorted_wrt (\<lambda>x y. js_ge (remaining x) (remaining y))
     (remainingUpside DEFAULT_ASSUMPTIONS (Fin 2) (Fin 6) (Fin 35))
   \<and> map planLeverId (remainingUpside DEFAULT_ASSUMPTIONS (Fin 2) (Fin 6) (Fin 35))
       = [Arpu, Activation, Churn]
   \<and> map remaining (remainingUpside DEFAULT_ASSUMPTIONS (Fin 2) (Fin 6) (Fin 35))
       = [Fin 50, Fin 27, Fin 0]"
proof -
  have "sorted_wrt (\<lambda>x y. js_ge (remaining x) (remaining y))
          (remainingUpside DEFAULT_ASSUMPTIONS (Fin 2) (Fin 6) (Fin 35))"
    using prioritizer_sorted [of DEFAULT_ASSUMPTIONS "Fin 2" "Fin 6" "Fin 35"]
    by (simp add: default_impacts is_finite_def)
  moreover have "remainingUpside DEFAULT_ASSUMPTIONS (Fin 2) (Fin 6) (Fin 35)
    = [ \<lparr>planLeverId = Arpu, upside = Fin 50, currentImpact = Fin 0, remaining = Fin 50\<rparr>,
        \<lparr>planLeverId = Activation, upside = Fin 27, currentImpact = Fin 0, remaining = Fin 27\<rparr>,
        \<lparr>planLeverId = Churn, upside = Fin 16, currentImpact = Fin 16, remaining = Fin 0\<rparr> ]"
    by (simp add: remainingUpside_def upsides_list default_impacts js_sort_def minus_jsnum_def)
  ultimately show ?thesis by simp
qed

lemma zero_arpu_impact_arpu_0:
  "calcIndependentImpact (DEFAULT_ASSUMPTIONS\<lparr>arpu := Fin 0\<rparr>) Arpu (Fin 0) = NaN"
proof -
  have "scenarioMRR (DEFAULT_ASSUMPTIONS\<lparr>arpu := Fin 0\<rparr>) Arpu (Fin 0) = Fin 0"
    using scenarioMRR_baseline [of "DEFAULT_ASSUMPTIONS\<lparr>arpu := Fin 0\<rparr>" Arpu]
    by (simp add: zero_arpu_baselineMRR)
  then show ?thesis
    by (simp add: impact_zero_base [OF zero_arpu_baselineMRR])
qed

text \<open>
  The claim as stated fails on a baseline MRR of zero: with the ARPU field at 0 and no
  override, every \<open>remaining\<close> is \<open>NaN\<close>, which is not \<open>>= 0\<close>.
\<close>

theorem prioritizer_nan_counterexample:
  "map remaining (remainingUpside (DEFAULT_ASSUMPTIONS\<lparr>arpu := Fin 0\<rparr>) (Fin 5) (Fin 0) (Fin 35))
     = [NaN, NaN, NaN]
   \<and> \<not> js_ge NaN (Fin 0)"
  by (simp add: remainingUpside_def upsides_list zero_arpu_impacts zero_arpu_impact_arpu_0
      js_sort_def minus_jsnum_def js_ge_def)

end
